theory Spec2Isabelle
  imports Complex_Main "HOL-Library.Sublist"
begin

section \<open>JavaScript values and strings\<close>

text \<open>
  The browser scripts of the GPX extractor handle JSON bodies decoded by
  \<^verbatim>\<open>response.json()\<close>. A decoded body is a JavaScript value; \<open>JUndef\<close> is the value
  of a property that an object does not have. A number is kept as its canonical
  \<^verbatim>\<open>Number.prototype.toString\<close> rendering, which is all the scripts ever use of it
  (its truthiness and its text). An object is the list of its members in source order.
  A string is a list of code units; the scripts only test ASCII characters.
\<close>

datatype json =
    JUndef
  | JNull
  | JBool bool
  | JNum string
  | JStr string
  | JArr "json list"
  | JObj "(string \<times> json) list"

text \<open>ToBoolean: the falsy values are undefined, null, false, 0, NaN and the empty string.\<close>

fun truthy :: "json \<Rightarrow> bool" where
  "truthy JUndef = False"
| "truthy JNull = False"
| "truthy (JBool b) = b"
| "truthy (JNum n) = (n \<noteq> ''0'' \<and> n \<noteq> ''NaN'')"
| "truthy (JStr s) = (s \<noteq> [])"
| "truthy (JArr xs) = True"
| "truthy (JObj kvs) = True"

text \<open>\<^verbatim>\<open>Array.prototype.join\<close> with the separator \<^verbatim>\<open>,\<close> over already rendered elements.\<close>

fun join_comma :: "string list \<Rightarrow> string" where
  "join_comma [] = []"
| "join_comma [s] = s"
| "join_comma (s # t # ts) = s @ '','' @ join_comma (t # ts)"

text \<open>
  ToString, as applied by a template literal, by \<^verbatim>\<open>new Error(v)\<close> and by an assignment
  to \<^verbatim>\<open>location.href\<close>. Inside an array, null and undefined render as the empty string.
\<close>

fun js_string :: "json \<Rightarrow> string" where
  "js_string JUndef = ''undefined''"
| "js_string JNull = ''null''"
| "js_string (JBool b) = (if b then ''true'' else ''false'')"
| "js_string (JNum n) = n"
| "js_string (JStr s) = s"
| "js_string (JArr xs) =
     join_comma (map (\<lambda>x. if x = JNull \<or> x = JUndef then [] else js_string x) xs)"
| "js_string (JObj kvs) = ''[object Object]''"

text \<open>
  Property read \<^verbatim>\<open>data.k\<close> for the keys the scripts use (\<^verbatim>\<open>redirect\<close>, \<^verbatim>\<open>url\<close>,
  \<^verbatim>\<open>job_id\<close>, \<^verbatim>\<open>error\<close>, \<^verbatim>\<open>success\<close>): reading from null or undefined throws a
  TypeError (\<open>None\<close>); an object yields its member, the last one when the key is
  repeated, as \<^verbatim>\<open>JSON.parse\<close> keeps it; every other value has no such property.
\<close>

fun js_get :: "json \<Rightarrow> string \<Rightarrow> json option" where
  "js_get JUndef k = None"
| "js_get JNull k = None"
| "js_get (JObj kvs) k = (case map_of (rev kvs) k of Some v \<Rightarrow> Some v | None \<Rightarrow> Some JUndef)"
| "js_get v k = Some JUndef"

text \<open>\<^verbatim>\<open>a || b\<close>\<close>

definition js_or :: "json \<Rightarrow> json \<Rightarrow> json" where
  "js_or a b = (if truthy a then a else b)"

text \<open>Decimal rendering of a non-negative integer, as JavaScript prints a small count.\<close>

fun show_nat :: "nat \<Rightarrow> string" where
  "show_nat n =
     (if n < 10 then [''0123456789'' ! n]
      else show_nat (n div 10) @ [''0123456789'' ! (n mod 10)])"

declare show_nat.simps [simp del]

section \<open>Effects of the page scripts\<close>

text \<open>
  What a handler does to the outside world, in order: the loading overlay of the
  archive page, a toast (message and type), a POST of a JSON body, an assignment to
  \<^verbatim>\<open>window.location.href\<close>, a line on the console, the loading overlay of the
  results page, and a click on a generated download link (with its file name).
\<close>

datatype effect =
    ShowLoading string
  | HideLoading
  | Toast string string
  | PostJson string json
  | SetLocation string
  | ConsoleError
  | ShowLoadingOverlay string
  | HideLoadingOverlay
  | SaveFile string

text \<open>
  The outcome of \<^verbatim>\<open>fetch(...).then(response => response.json())\<close>: the promise is
  rejected (network failure, or a body that is not JSON) with an error carrying a
  message, or it is fulfilled with the decoded body.
\<close>

datatype fetched = Rejected string | Body json

text \<open>The API paths are the page path, with a slash appended when it has none.\<close>

definition basePath :: "string \<Rightarrow> string" where
  "basePath p = (if p \<noteq> [] \<and> last p = CHR ''/'' then p else p @ ''/'')"

definition selectFile_url :: "string \<Rightarrow> string" where
  "selectFile_url p = basePath p @ ''select-file''"

definition deleteFile_url :: "string \<Rightarrow> string" where
  "deleteFile_url p = basePath p @ ''delete-file''"

section \<open>Select/Process: processFile\<close>

text \<open>
  The \<^verbatim>\<open>.then(data => ...)\<close> callback of processFile after \<^verbatim>\<open>hideLoading()\<close>: either
  it assigns the location, or it throws an Error with a message (\<open>Inl\<close>). Reading a
  property of a null body throws a TypeError; its message is worded by the browser, and
  the wording of V8 is taken here.
\<close>

definition typeError_message :: "string \<Rightarrow> string" where
  "typeError_message k =
     ''Cannot read properties of null (reading '' @ [CHR 0x27] @ k @ [CHR 0x27] @ '')''"

definition processFile_then :: "json \<Rightarrow> string + effect list" where
  "processFile_then data =
     (case js_get data ''redirect'' of
        None \<Rightarrow> Inl (typeError_message ''redirect'')
      | Some redirect \<Rightarrow>
          if truthy redirect \<and> truthy (the (js_get data ''url''))
          then Inr [SetLocation (js_string (the (js_get data ''url'')))]
          else if truthy (the (js_get data ''job_id''))
          then Inr [SetLocation (''/processing/'' @ js_string (the (js_get data ''job_id'')))]
          else Inl (js_string (js_or (the (js_get data ''error''))
                                     (JStr ''Failed to start processing''))))"

text \<open>The \<^verbatim>\<open>.catch(error => ...)\<close> callback of processFile.\<close>

definition processFile_catch :: "string \<Rightarrow> effect list" where
  "processFile_catch message =
     [HideLoading,
      Toast (if message \<noteq> [] then message else ''Error starting file processing'') ''error'',
      ConsoleError]"

text \<open>
  processFile for the page at path \<open>p\<close>, with the outcome of the request as the
  environment's answer.
\<close>

definition processFile :: "string \<Rightarrow> json \<Rightarrow> fetched \<Rightarrow> effect list" where
  "processFile p uniqueId r =
     [ShowLoading ''Starting file processing...'',
      PostJson (selectFile_url p) (JObj [(''unique_id'', uniqueId)])] @
     (case r of
        Rejected message \<Rightarrow> processFile_catch message
      | Body data \<Rightarrow>
          HideLoading #
          (case processFile_then data of
             Inr es \<Rightarrow> es
           | Inl message \<Rightarrow> processFile_catch message))"

text \<open>Observations on a trace of effects.\<close>

fun locations :: "effect list \<Rightarrow> string list" where
  "locations [] = []"
| "locations (SetLocation u # es) = u # locations es"
| "locations (e # es) = locations es"

fun error_toasts :: "effect list \<Rightarrow> string list" where
  "error_toasts [] = []"
| "error_toasts (Toast m k # es) = (if k = ''error'' then m # error_toasts es else error_toasts es)"
| "error_toasts (e # es) = error_toasts es"

fun toasts :: "effect list \<Rightarrow> (string \<times> string) list" where
  "toasts [] = []"
| "toasts (Toast m k # es) = (m, k) # toasts es"
| "toasts (e # es) = toasts es"

fun posts :: "effect list \<Rightarrow> (string \<times> json) list" where
  "posts [] = []"
| "posts (PostJson u b # es) = (u, b) # posts es"
| "posts (e # es) = posts es"

text \<open>
  The three cases the response of Select/Process is sorted into: a truthy
  \<^verbatim>\<open>redirect\<close> together with a truthy \<^verbatim>\<open>url\<close>, else a truthy \<^verbatim>\<open>job_id\<close>, else neither.
  A member that is absent reads as undefined, which is falsy.
\<close>

definition js_field :: "json \<Rightarrow> string \<Rightarrow> json" where
  "js_field data k = (case js_get data k of Some v \<Rightarrow> v | None \<Rightarrow> JUndef)"

definition has_redirect :: "json \<Rightarrow> bool" where
  "has_redirect data \<longleftrightarrow> truthy (js_field data ''redirect'') \<and> truthy (js_field data ''url'')"

definition has_job :: "json \<Rightarrow> bool" where
  "has_job data \<longleftrightarrow> truthy (js_field data ''job_id'')"

section \<open>Token-gated deletion: confirmDelete\<close>

text \<open>
  \<^verbatim>\<open>String.prototype.trim\<close> strips white space and line terminators from both ends.
  Of the code units below 256 these are tab, line feed, vertical tab, form feed,
  carriage return, space and the no-break space.
\<close>

definition is_js_space :: "char \<Rightarrow> bool" where
  "is_js_space c \<longleftrightarrow>
     c \<in> set [CHR 0x09, CHR 0x0A, CHR 0x0B, CHR 0x0C, CHR 0x0D, CHR 0x20, CHR 0xA0]"

definition trim :: "string \<Rightarrow> string" where
  "trim s = rev (dropWhile is_js_space (rev (dropWhile is_js_space s)))"

text \<open>
  The browser's selector engine is not part of the repository. It is a parameter of the
  model: given the text of a selector it throws a SyntaxError (\<open>None\<close>) or tells which
  elements match.
\<close>

type_synonym 'e selector_engine = "string \<Rightarrow> ('e \<Rightarrow> bool) option"

text \<open>
  The archive page as far as the delete dialog touches it. The templates are not part
  of the sources; the model takes the \<^verbatim>\<open>.file-item\<close> elements of \<^verbatim>\<open>#filesList\<close>, in
  document order, as the elements a selector ranges over, each with its
  \<^verbatim>\<open>data-unique-id\<close> attribute. An input or modal that the page may lack is an option.
  The scroll lock of the body and the fade-out styles of a removed item are left out,
  and the state is the one reached once the 300 ms timer of the removal has fired.
\<close>

record file_item =
  data_unique_id :: "string option"

record index_page =
  deleteToken :: "string option"
  deleteModal :: "string option"
  deleteFileName :: "string option"
  currentDeleteId :: json
  currentDeleteName :: json
  file_items :: "file_item list"
  empty_state :: bool

definition showDeleteDialog :: "json \<Rightarrow> json \<Rightarrow> index_page \<Rightarrow> index_page" where
  "showDeleteDialog uniqueId displayName st =
     (let st1 = st\<lparr>currentDeleteId := uniqueId, currentDeleteName := displayName\<rparr>
      in if deleteModal st \<noteq> None \<and> deleteFileName st \<noteq> None \<and> deleteToken st \<noteq> None
         then st1\<lparr>deleteFileName := Some (js_string displayName),
                 deleteToken := Some [], deleteModal := Some ''flex''\<rparr>
         else st1)"

definition hideDeleteDialog :: "index_page \<Rightarrow> index_page" where
  "hideDeleteDialog st =
     st\<lparr>deleteModal := map_option (\<lambda>_. ''none'') (deleteModal st),
        deleteToken := map_option (\<lambda>_. []) (deleteToken st),
        currentDeleteId := JNull,
        currentDeleteName := JNull\<rparr>"

text \<open>\<^verbatim>\<open>document.querySelector\<close>: the first matching element, as an index.\<close>

fun find_index_of :: "('e \<Rightarrow> bool) \<Rightarrow> 'e list \<Rightarrow> nat option" where
  "find_index_of P [] = None"
| "find_index_of P (x # xs) =
     (if P x then Some 0 else map_option Suc (find_index_of P xs))"

text \<open>\<^verbatim>\<open>fileItem.remove()\<close> for the element at an index.\<close>

definition remove_at :: "nat \<Rightarrow> 'e list \<Rightarrow> 'e list" where
  "remove_at i xs = take i xs @ drop (Suc i) xs"

definition item_selector :: "json \<Rightarrow> string" where
  \<open>item_selector uniqueId = ''[data-unique-id="'' @ js_string uniqueId @ ''"]''\<close>

text \<open>
  The \<^verbatim>\<open>.then(data => ...)\<close> callback of confirmDelete, with \<open>uniqueId\<close> and
  \<open>displayName\<close> as the call captured them. The first component tells whether the
  callback threw (reading \<^verbatim>\<open>data.success\<close> of null, or a selector the engine rejects).
\<close>

definition confirmDelete_then ::
  "file_item selector_engine \<Rightarrow> json \<Rightarrow> json \<Rightarrow> json \<Rightarrow> index_page
     \<Rightarrow> bool \<times> index_page \<times> effect list" where
  "confirmDelete_then eng uniqueId displayName data st =
     (let st1 = hideDeleteDialog st in
      case js_get data ''success'' of
        None \<Rightarrow> (True, st1, [HideLoading])
      | Some success \<Rightarrow>
          if truthy success then
            (let es = [HideLoading, Toast (''Deleted: '' @ js_string displayName) ''success''] in
             case eng (item_selector uniqueId) of
               None \<Rightarrow> (True, st1, es)
             | Some matches \<Rightarrow>
                 (case find_index_of matches (file_items st1) of
                    None \<Rightarrow> (False, st1, es)
                  | Some i \<Rightarrow>
                      (let remaining = remove_at i (file_items st1) in
                       (False,
                        st1\<lparr>file_items := remaining,
                            empty_state := (if remaining = [] then True else empty_state st1)\<rparr>,
                        es))))
          else
            (False, st1,
             [HideLoading,
              Toast (js_string (js_or (the (js_get data ''error'')) (JStr ''Failed to delete file'')))
                ''error'']))"

text \<open>The \<^verbatim>\<open>.catch(error => ...)\<close> callback of confirmDelete.\<close>

definition confirmDelete_catch :: "index_page \<Rightarrow> index_page \<times> effect list" where
  "confirmDelete_catch st =
     (hideDeleteDialog st, [HideLoading, Toast ''Error deleting file'' ''error'', ConsoleError])"

definition confirmDelete ::
  "file_item selector_engine \<Rightarrow> string \<Rightarrow> index_page \<Rightarrow> fetched \<Rightarrow> index_page \<times> effect list" where
  "confirmDelete eng p st r =
     (let token = (case deleteToken st of Some v \<Rightarrow> trim v | None \<Rightarrow> []);
          uniqueId = currentDeleteId st;
          displayName = currentDeleteName st
      in
      if token = [] then (st, [Toast ''Please enter the delete token'' ''warning''])
      else if \<not> truthy uniqueId then (st, [Toast ''No file selected for deletion'' ''error''])
      else
        (let request =
               [ShowLoading ''Deleting file...'',
                PostJson (deleteFile_url p)
                  (JObj [(''unique_id'', uniqueId), (''token'', JStr token)])]
         in
         case r of
           Rejected m \<Rightarrow>
             (case confirmDelete_catch st of (st', es) \<Rightarrow> (st', request @ es))
         | Body data \<Rightarrow>
             (case confirmDelete_then eng uniqueId displayName data st of
                (threw, st1, es1) \<Rightarrow>
                  if threw
                  then (case confirmDelete_catch st1 of (st', es) \<Rightarrow> (st', request @ es1 @ es))
                  else (st1, request @ es1))))"

text \<open>Observations on a delete attempt: the token sent, the answer, the list shown.\<close>

definition token_entered :: "index_page \<Rightarrow> string" where
  "token_entered st = (case deleteToken st of Some v \<Rightarrow> trim v | None \<Rightarrow> [])"

definition reports_success :: "fetched \<Rightarrow> bool" where
  "reports_success r =
     (case r of Rejected m \<Rightarrow> False | Body data \<Rightarrow> truthy (js_field data ''success''))"

definition has_unique_id :: "string \<Rightarrow> file_item \<Rightarrow> bool" where
  "has_unique_id u e \<longleftrightarrow> data_unique_id e = Some u"

definition displayed :: "index_page \<Rightarrow> file_item list \<times> bool" where
  "displayed st = (file_items st, empty_state st)"

subsection \<open>An archive page with two entries\<close>

definition page0 :: index_page where
  "page0 =
     \<lparr>deleteToken = Some '' s3cret '', deleteModal = Some ''flex'',
      deleteFileName = Some ''S.gpx'',
      currentDeleteId = JStr ''S_20260102'', currentDeleteName = JStr ''S.gpx'',
      file_items =
        [\<lparr>data_unique_id = Some ''T_20251224''\<rparr>, \<lparr>data_unique_id = Some ''S_20260102''\<rparr>],
      empty_state = False\<rparr>"

definition page1 :: index_page where
  "page1 = page0\<lparr>deleteToken := Some ''  ''\<rparr>"

definition engine0 :: "file_item selector_engine" where
  \<open>engine0 sel =
     (if sel = ''[data-unique-id="S_20260102"]'' then Some (has_unique_id ''S_20260102'')
      else None)\<close>

definition refused :: fetched where
  "refused = Body (JObj [(''success'', JBool False), (''error'', JStr ''Invalid delete token'')])"

definition deleted :: fetched where
  "deleted = Body (JObj [(''success'', JBool True)])"

section \<open>Results page: file selection\<close>

text \<open>
  A JavaScript \<^verbatim>\<open>Set\<close> keeps its members in insertion order, without repetition;
  \<^verbatim>\<open>Array.from\<close> lists them in that order and \<^verbatim>\<open>size\<close> counts them.
\<close>

definition set_add :: "'a \<Rightarrow> 'a list \<Rightarrow> 'a list" where
  "set_add x s = (if x \<in> set s then s else s @ [x])"

definition set_delete :: "'a \<Rightarrow> 'a list \<Rightarrow> 'a list" where
  "set_delete x s = removeAll x s"

definition set_size :: "'a list \<Rightarrow> nat" where
  "set_size s = length s"

text \<open>
  The results page. A row is a \<^verbatim>\<open>.file-item\<close> with its \<^verbatim>\<open>data-type\<close> attribute and
  its \<^verbatim>\<open>.file-checkbox\<close>, if it has one; the checkboxes of the rows are taken to be all
  the \<^verbatim>\<open>.file-checkbox\<close> elements of the document. A checkbox has its
  \<^verbatim>\<open>data-filename\<close> (undefined, \<open>None\<close>, when the attribute is missing) and its checked
  state. The counter, the button (disabled flag and label) and the select-all
  checkbox (checked and indeterminate flags) are options: the page may lack them.
\<close>

record checkbox =
  filename :: "string option"
  checked :: bool

record file_row =
  data_type :: "string option"
  box :: "checkbox option"

record results_page =
  rows :: "file_row list"
  selectedFiles :: "string option list"
  selectedCount :: "string option"
  downloadSelectedBtn :: "(bool \<times> string) option"
  selectAllCheckbox :: "(bool \<times> bool) option"
  outputDirectory :: string

definition checkboxes :: "results_page \<Rightarrow> checkbox list" where
  "checkboxes st = List.map_filter box (rows st)"

definition set_checked :: "bool \<Rightarrow> file_row \<Rightarrow> file_row" where
  "set_checked b r = r\<lparr>box := map_option (\<lambda>c. c\<lparr>checked := b\<rparr>) (box r)\<rparr>"

definition updateSelectedCount :: "results_page \<Rightarrow> results_page" where
  \<open>updateSelectedCount st =
     (let count = set_size (selectedFiles st) in
      st\<lparr>selectedCount := map_option (\<lambda>_. show_nat count) (selectedCount st),
         downloadSelectedBtn :=
           map_option
             (\<lambda>_. (count = 0,
                   if count = 0
                   then ''<i class="fas fa-download"></i> Download Selected (0)''
                   else ''<i class="fas fa-download"></i> Download Selected ('' @ show_nat count @ '')''))
             (downloadSelectedBtn st)\<rparr>)\<close>

definition updateSelectAllCheckbox :: "results_page \<Rightarrow> results_page" where
  "updateSelectAllCheckbox st =
     (let totalCheckboxes = length (checkboxes st);
          count = set_size (selectedFiles st)
      in st\<lparr>selectAllCheckbox :=
              map_option
                (\<lambda>_. (count = totalCheckboxes \<and> totalCheckboxes > 0,
                      count > 0 \<and> count < totalCheckboxes))
                (selectAllCheckbox st)\<rparr>)"

definition selectAll :: "results_page \<Rightarrow> results_page" where
  "selectAll st =
     updateSelectAllCheckbox (updateSelectedCount
       (st\<lparr>rows := map (set_checked True) (rows st),
           selectedFiles := fold (\<lambda>c. set_add (filename c)) (checkboxes st) (selectedFiles st)\<rparr>))"

definition selectNone :: "results_page \<Rightarrow> results_page" where
  "selectNone st =
     updateSelectAllCheckbox (updateSelectedCount
       (st\<lparr>rows := map (set_checked False) (rows st), selectedFiles := []\<rparr>))"

definition type_selector :: "string \<Rightarrow> string" where
  \<open>type_selector type = ''.file-item[data-type="'' @ type @ ''"]''\<close>

text \<open>
  selectByType clears the selection first. When the engine rejects the selector the
  function ends there with a SyntaxError and shows nothing.
\<close>

definition selectByType ::
  "file_row selector_engine \<Rightarrow> string \<Rightarrow> results_page \<Rightarrow> results_page \<times> effect list" where
  "selectByType eng type st =
     (let st1 = selectNone st in
      case eng (type_selector type) of
        None \<Rightarrow> (st1, [])
      | Some matches \<Rightarrow>
          (let st2 = st1\<lparr>rows := map (\<lambda>r. if matches r then set_checked True r else r) (rows st1),
                         selectedFiles :=
                           fold (\<lambda>c. set_add (filename c))
                             (List.map_filter box (filter matches (rows st1))) (selectedFiles st1)\<rparr>;
               st3 = updateSelectAllCheckbox (updateSelectedCount st2);
               count = set_size (selectedFiles st3)
           in (st3,
               [Toast (''Selected '' @ show_nat count @ '' '' @ type @ '' file'' @
                        (if count \<noteq> 1 then ''s'' else [])) ''info''])))"

text \<open>
  toggleSelectAll reads the select-all checkbox; without that element the read throws
  and nothing happens.
\<close>

definition toggleSelectAll :: "results_page \<Rightarrow> results_page" where
  "toggleSelectAll st =
     (case selectAllCheckbox st of
        None \<Rightarrow> st
      | Some (is_checked, indeterminate) \<Rightarrow> if is_checked then selectAll st else selectNone st)"

text \<open>
  The change listener, for the checkbox of row \<open>i\<close> after the browser has flipped it.
  A change event from any other element is ignored.
\<close>

definition checkbox_change :: "nat \<Rightarrow> results_page \<Rightarrow> results_page" where
  "checkbox_change i st =
     (if i < length (rows st) then
        (case box (rows st ! i) of
           None \<Rightarrow> st
         | Some c \<Rightarrow>
             (let c' = c\<lparr>checked := \<not> checked c\<rparr>;
                  st1 = st\<lparr>rows := (rows st)[i := (rows st ! i)\<lparr>box := Some c'\<rparr>]\<rparr>;
                  st2 = st1\<lparr>selectedFiles :=
                            (if checked c' then set_add (filename c') (selectedFiles st1)
                             else set_delete (filename c') (selectedFiles st1))\<rparr>
              in updateSelectAllCheckbox (updateSelectedCount st2)))
      else st)"

text \<open>
  A click on the select-all checkbox: the browser flips it and clears its indeterminate
  flag, then the page calls toggleSelectAll.
\<close>

definition click_select_all :: "results_page \<Rightarrow> results_page" where
  "click_select_all st =
     toggleSelectAll
       (st\<lparr>selectAllCheckbox := map_option (\<lambda>(c, i). (\<not> c, False)) (selectAllCheckbox st)\<rparr>)"

text \<open>
  Loading the page: the script creates an empty set, and \<^verbatim>\<open>initializeResults\<close> runs
  once the document is ready.
\<close>

definition initializeResults :: "results_page \<Rightarrow> results_page" where
  "initializeResults st = updateSelectedCount st"

definition page_load :: "results_page \<Rightarrow> results_page" where
  "page_load page = initializeResults (page\<lparr>selectedFiles := []\<rparr>)"

datatype selection_op =
    SelectAll
  | SelectNone
  | SelectByType string
  | ToggleSelectAll
  | ClickSelectAll
  | CheckboxChange nat

fun selection_step :: "file_row selector_engine \<Rightarrow> selection_op \<Rightarrow> results_page \<Rightarrow> results_page" where
  "selection_step eng SelectAll st = selectAll st"
| "selection_step eng SelectNone st = selectNone st"
| "selection_step eng (SelectByType type) st = fst (selectByType eng type st)"
| "selection_step eng ToggleSelectAll st = toggleSelectAll st"
| "selection_step eng ClickSelectAll st = click_select_all st"
| "selection_step eng (CheckboxChange i) st = checkbox_change i st"

definition selection_run ::
  "file_row selector_engine \<Rightarrow> selection_op list \<Rightarrow> results_page \<Rightarrow> results_page" where
  "selection_run eng ops st = fold (selection_step eng) ops st"

text \<open>
  downloadSelected. The answer to the request is the environment's: the fetch is
  rejected, or the response is not ok and its body is decoded for an error text, or
  the response is ok and its blob is saved under a name that carries today's date.
\<close>

datatype download_response = DownloadRejected string | DownloadNotOk fetched | DownloadOk

definition download_failed :: "string \<Rightarrow> effect list" where
  "download_failed message =
     [ConsoleError, Toast (''Download failed: '' @ message) ''error'', HideLoadingOverlay]"

definition downloadSelected :: "string \<Rightarrow> results_page \<Rightarrow> download_response \<Rightarrow> effect list" where
  "downloadSelected today st resp =
     (let files = selectedFiles st in
      if length files = 0 then [Toast ''No files selected'' ''warning'']
      else
        [ShowLoadingOverlay ''Preparing download...'',
         PostJson ''/download-selected''
           (JObj [(''files'', JArr (map (\<lambda>f. case f of None \<Rightarrow> JNull | Some n \<Rightarrow> JStr n) files)),
                  (''directory'', JStr (outputDirectory st))])] @
        (case resp of
           DownloadRejected message \<Rightarrow> download_failed message
         | DownloadNotOk (Rejected message) \<Rightarrow> download_failed message
         | DownloadNotOk (Body err) \<Rightarrow>
             (case js_get err ''error'' of
                None \<Rightarrow> download_failed (typeError_message ''error'')
              | Some e \<Rightarrow> download_failed (js_string (js_or e (JStr ''Download failed''))))
         | DownloadOk \<Rightarrow>
             [SaveFile (''selected_gpx_files_'' @ today @ ''.zip''),
              Toast (''Downloaded '' @ show_nat (length files) @ '' files'') ''success'',
              HideLoadingOverlay]))"

text \<open>The selection display agrees with the set.\<close>

definition count_shown :: "results_page \<Rightarrow> bool" where
  "count_shown st =
     (case selectedCount st of
        None \<Rightarrow> True
      | Some text \<Rightarrow> text = show_nat (set_size (selectedFiles st)))"

definition button_agrees :: "results_page \<Rightarrow> bool" where
  "button_agrees st =
     (case downloadSelectedBtn st of
        None \<Rightarrow> True
      | Some (disabled, label) \<Rightarrow> disabled = (selectedFiles st = []))"

subsection \<open>A results page with three files\<close>

definition results0 :: results_page where
  "results0 =
     \<lparr>rows =
        [\<lparr>data_type = Some ''waypoints'',
          box = Some \<lparr>filename = Some ''S_waypoints.gpx'', checked = False\<rparr>\<rparr>,
         \<lparr>data_type = Some ''track'',
          box = Some \<lparr>filename = Some ''TET_S-01.gpx'', checked = False\<rparr>\<rparr>,
         \<lparr>data_type = Some ''track'',
          box = Some \<lparr>filename = Some ''TET_S-02.gpx'', checked = False\<rparr>\<rparr>],
      selectedFiles = [],
      selectedCount = Some ''0'',
      downloadSelectedBtn = Some (True, []),
      selectAllCheckbox = Some (False, False),
      outputDirectory = ''S_20260102''\<rparr>"

definition engine1 :: "file_row selector_engine" where
  \<open>engine1 sel =
     (if sel = ''.file-item[data-type="track"]'' then Some (\<lambda>r. data_type r = Some ''track'')
      else None)\<close>

text \<open>The invariant of the selection: the display agrees with a duplicate-free set.\<close>

definition selection_inv :: "results_page \<Rightarrow> bool" where
  "selection_inv st \<longleftrightarrow> count_shown st \<and> button_agrees st \<and> distinct (selectedFiles st)"

section \<open>Upload form: file validation and simulated progress\<close>

text \<open>
  \<^verbatim>\<open>String.prototype.toLowerCase\<close> on the ASCII letters. No other character lowers to
  one of \<^verbatim>\<open>.\<close>, \<^verbatim>\<open>g\<close>, \<^verbatim>\<open>p\<close>, \<^verbatim>\<open>x\<close>, so the extension test below is not affected
  by the letters left alone here.
\<close>

definition toLowerCase_char :: "char \<Rightarrow> char" where
  "toLowerCase_char c =
     (case map_of (zip ''ABCDEFGHIJKLMNOPQRSTUVWXYZ'' ''abcdefghijklmnopqrstuvwxyz'') c of
        Some l \<Rightarrow> l
      | None \<Rightarrow> c)"

definition toLowerCase :: "string \<Rightarrow> string" where
  "toLowerCase s = map toLowerCase_char s"

text \<open>\<^verbatim>\<open>String.prototype.endsWith\<close>\<close>

definition endsWith :: "string \<Rightarrow> string \<Rightarrow> bool" where
  "endsWith s e \<longleftrightarrow> length e \<le> length s \<and> drop (length s - length e) s = e"

text \<open>
  The file chosen in the input, and the upload form: \<^verbatim>\<open>fileInput.files[0]\<close>, the text of
  \<^verbatim>\<open>.file-name\<close> and \<^verbatim>\<open>.file-size\<close>, and the display style of \<^verbatim>\<open>.file-input-label\<close> and
  \<^verbatim>\<open>.file-info\<close>. The four elements around the input are options: the page may lack
  them. The listeners exist only when the input itself does.
\<close>

record gpx_file =
  file_name :: string
  file_size :: nat

record upload_form =
  files0 :: "gpx_file option"
  fileName :: "string option"
  fileSize :: "string option"
  fileLabel :: "string option"
  fileInfo :: "string option"

definition resetFileInput :: "upload_form \<Rightarrow> upload_form" where
  "resetFileInput st =
     st\<lparr>files0 := None,
        fileLabel := map_option (\<lambda>_. ''inline-block'') (fileLabel st),
        fileInfo := map_option (\<lambda>_. ''none'') (fileInfo st)\<rparr>"

definition max_upload_bytes :: nat where
  "max_upload_bytes = 100 * 1024 * 1024"

text \<open>The validation both versions of the change listener share.\<close>

definition validate_file :: "gpx_file \<Rightarrow> upload_form \<Rightarrow> upload_form \<times> effect list" where
  "validate_file file st =
     (if \<not> endsWith (toLowerCase (file_name file)) ''.gpx''
      then (resetFileInput st, [Toast ''Please select a GPX file'' ''error''])
      else if file_size file > max_upload_bytes
      then (resetFileInput st, [Toast ''File is too large. Maximum size is 100MB'' ''error''])
      else (st, [Toast ''GPX file ready for processing'' ''success'']))"

text \<open>
  The change listener of the archive page script, which guards every element it
  writes to. \<open>fmt\<close> is \<^verbatim>\<open>formatFileSize\<close>, a floating-point rendering of the size that
  never throws; its text plays no part in the validation.
\<close>

definition file_change :: "(nat \<Rightarrow> string) \<Rightarrow> upload_form \<Rightarrow> upload_form \<times> effect list" where
  "file_change fmt st =
     (case files0 st of
        None \<Rightarrow> (st, [])
      | Some file \<Rightarrow>
          validate_file file
            (st\<lparr>fileName := map_option (\<lambda>_. file_name file) (fileName st),
                fileSize := map_option (\<lambda>_. fmt (file_size file)) (fileSize st),
                fileLabel := map_option (\<lambda>_. ''none'') (fileLabel st),
                fileInfo := map_option (\<lambda>_. ''flex'') (fileInfo st)\<rparr>))"

text \<open>
  The change listener of the older script writes to the four elements without a guard:
  the first that is missing ends the listener with a TypeError (\<open>Inl\<close>, with the form as
  it is then), before the file is validated.
\<close>

definition file_change_unguarded ::
  "(nat \<Rightarrow> string) \<Rightarrow> upload_form \<Rightarrow> upload_form + upload_form \<times> effect list" where
  "file_change_unguarded fmt st =
     (case files0 st of
        None \<Rightarrow> Inr (st, [])
      | Some file \<Rightarrow>
          if fileName st = None then Inl st
          else let st1 = st\<lparr>fileName := Some (file_name file)\<rparr> in
          if fileSize st1 = None then Inl st1
          else let st2 = st1\<lparr>fileSize := Some (fmt (file_size file))\<rparr> in
          if fileLabel st2 = None then Inl st2
          else let st3 = st2\<lparr>fileLabel := Some ''none''\<rparr> in
          if fileInfo st3 = None then Inl st3
          else Inr (validate_file file (st3\<lparr>fileInfo := Some ''flex''\<rparr>)))"

text \<open>The user picks a file: the browser puts it into the input and fires the event.\<close>

definition choose_file ::
  "(nat \<Rightarrow> string) \<Rightarrow> gpx_file \<Rightarrow> upload_form \<Rightarrow> upload_form \<times> effect list" where
  "choose_file fmt file st = file_change fmt (st\<lparr>files0 := Some file\<rparr>)"

definition choose_file_unguarded ::
  "(nat \<Rightarrow> string) \<Rightarrow> gpx_file \<Rightarrow> upload_form \<Rightarrow> upload_form + upload_form \<times> effect list" where
  "choose_file_unguarded fmt file st = file_change_unguarded fmt (st\<lparr>files0 := Some file\<rparr>)"

text \<open>
  The submit listener: without a file in the input it prevents the submission (first
  component) and shows an error. With a file the form is submitted; what follows in the
  listener only drives the progress display.
\<close>

definition form_submit :: "upload_form \<Rightarrow> bool \<times> effect list" where
  "form_submit st =
     (if files0 st = None then (True, [Toast ''Please select a GPX file first'' ''error''])
      else (False, []))"

definition has_gpx_extension :: "gpx_file \<Rightarrow> bool" where
  "has_gpx_extension file \<longleftrightarrow> endsWith (toLowerCase (file_name file)) ''.gpx''"

definition within_size :: "gpx_file \<Rightarrow> bool" where
  "within_size file \<longleftrightarrow> file_size file \<le> 100 * 1024 * 1024"

definition all_present :: "upload_form \<Rightarrow> bool" where
  "all_present st \<longleftrightarrow>
     fileName st \<noteq> None \<and> fileSize st \<noteq> None \<and> fileLabel st \<noteq> None \<and> fileInfo st \<noteq> None"

subsection \<open>A form and three files\<close>

definition form0 :: upload_form where
  "form0 = \<lparr>files0 = None, fileName = Some [], fileSize = Some [],
            fileLabel = Some ''inline-block'', fileInfo = Some ''none''\<rparr>"

definition fmt0 :: "nat \<Rightarrow> string" where
  "fmt0 n = show_nat n @ '' B''"

definition notes_txt :: gpx_file where
  "notes_txt = \<lparr>file_name = ''notes.txt'', file_size = 200 * 1024 * 1024\<rparr>"

definition huge_gpx :: gpx_file where
  "huge_gpx = \<lparr>file_name = ''huge.gpx'', file_size = 100 * 1024 * 1024 + 1\<rparr>"

definition tour_gpx :: gpx_file where
  "tour_gpx = \<lparr>file_name = ''Tour.GPX'', file_size = 100 * 1024 * 1024\<rparr>"

subsection \<open>Simulated progress\<close>

text \<open>
  simulateProgress starts a timer; every tick adds \<^verbatim>\<open>Math.random() * 15\<close> to the
  progress, caps it at 90, sets the width of the bar and the text, and clears the timer
  once the text is the last one. The random numbers drawn at the ticks are the input.
  JavaScript numbers are floating-point: \<open>fl\<close> is the rounding that follows every
  arithmetic operation, a parameter of the model.
\<close>

definition progress_text :: "real \<Rightarrow> string" where
  "progress_text progress =
     (if progress < 30 then ''Uploading file...''
      else if progress < 60 then ''Analyzing GPX structure...''
      else if progress < 90 then ''Extracting components...''
      else ''Almost done...'')"

definition tick :: "(real \<Rightarrow> real) \<Rightarrow> real \<Rightarrow> real \<Rightarrow> real" where
  "tick fl progress r =
     (let p = fl (progress + fl (r * 15)) in if p > 90 then 90 else p)"

fun simulate_ticks :: "(real \<Rightarrow> real) \<Rightarrow> real \<Rightarrow> real list \<Rightarrow> (real \<times> string) list" where
  "simulate_ticks fl progress [] = []"
| "simulate_ticks fl progress (r # rs) =
     (let p = tick fl progress r in
      (p, progress_text p) # (if p < 90 then simulate_ticks fl p rs else []))"

text \<open>
  What the bar shows, tick by tick: nothing when the page lacks the bar or its text.
\<close>

definition simulateProgress :: "bool \<Rightarrow> bool \<Rightarrow> (real \<Rightarrow> real) \<Rightarrow> real list \<Rightarrow> (real \<times> string) list" where
  "simulateProgress has_fill has_text fl rs =
     (if \<not> has_fill \<or> \<not> has_text then [] else simulate_ticks fl 0 rs)"

text \<open>
  A rounding as IEEE 754 arithmetic performs it on the values met here: monotone, and
  exact on a number that is already representable, such as 0 and 90.
\<close>

definition rounding :: "(real \<Rightarrow> real) \<Rightarrow> bool" where
  "rounding fl \<longleftrightarrow> mono fl \<and> fl 0 = 0 \<and> fl 90 = 90 \<and> fl \<circ> fl = fl"

definition random_draws :: "real list \<Rightarrow> bool" where
  "random_draws rs \<longleftrightarrow> list_all (\<lambda>r. 0 \<le> r \<and> r < 1) rs"

definition exact :: "real \<Rightarrow> real" where
  "exact x = x"

text \<open>
  The phases of the specification and their ranges of the percentage: uploading 0 to
  10, parsing 10 to 40, extracting 40 to 90, summarizing 90 to 100. The four texts of
  the progress bar stand for the four phases in their order.
\<close>

datatype phase = Uploading | Parsing | Extracting | Summarizing

definition spec_phase :: "real \<Rightarrow> phase" where
  "spec_phase p =
     (if p < 10 then Uploading else if p < 40 then Parsing
      else if p < 90 then Extracting else Summarizing)"

definition phase_of_text :: "string \<Rightarrow> phase option" where
  "phase_of_text t =
     map_of [(''Uploading file...'', Uploading), (''Analyzing GPX structure...'', Parsing),
             (''Extracting components...'', Extracting), (''Almost done...'', Summarizing)] t"

section \<open>Short URL expansion: URLExpander\<close>

text \<open>
  The regular expressions of \<^verbatim>\<open>isValidExpandedUrl\<close> are sequences of literal
  characters and one \<^verbatim>\<open>.+\<close>. The dot of a JavaScript pattern matches every character
  but a line terminator; of the code units below 256 these are line feed and carriage
  return.
\<close>

datatype atom = Ch char | DotPlus

definition is_line_terminator :: "char \<Rightarrow> bool" where
  "is_line_terminator c \<longleftrightarrow> c = CHR 0x0A \<or> c = CHR 0x0D"

text \<open>A match of the pattern that starts at the head of the string (with backtracking).\<close>

fun match_here :: "atom list \<Rightarrow> string \<Rightarrow> bool" where
  "match_here [] s = True"
| "match_here (Ch c # as) [] = False"
| "match_here (Ch c # as) (x # xs) = (x = c \<and> match_here as xs)"
| "match_here (DotPlus # as) [] = False"
| "match_here (DotPlus # as) (x # xs) =
     (\<not> is_line_terminator x \<and> (match_here (DotPlus # as) xs \<or> match_here as xs))"

text \<open>\<^verbatim>\<open>RegExp.prototype.test\<close> without flags: a match that starts anywhere.\<close>

fun regex_test :: "atom list \<Rightarrow> string \<Rightarrow> bool" where
  "regex_test p [] = match_here p []"
| "regex_test p (x # xs) = (match_here p (x # xs) \<or> regex_test p xs)"

definition literal :: "string \<Rightarrow> atom list" where
  "literal s = map Ch s"

definition googleMapsPatterns :: "atom list list" where
  "googleMapsPatterns =
     [literal ''maps.google.'',
      literal ''www.google.'' @ [DotPlus] @ literal ''/maps'',
      literal ''maps.app.goo.gl'']"

text \<open>\<^verbatim>\<open>String.prototype.includes\<close>\<close>

fun js_includes :: "string \<Rightarrow> string \<Rightarrow> bool" where
  "js_includes [] sub = (sub = [])"
| "js_includes (x # xs) sub = (prefix sub (x # xs) \<or> js_includes xs sub)"

definition isValidExpandedUrl :: "string \<Rightarrow> bool" where
  "isValidExpandedUrl url \<longleftrightarrow>
     list_ex (\<lambda>pattern. regex_test pattern url) googleMapsPatterns \<and>
     (js_includes url ''@'' \<or> js_includes url ''q='' \<or> js_includes url ''dir/'')"

text \<open>
  An expansion method asks the network; what it comes back with is the environment's:
  it throws (or its promise is rejected), or it returns a string, possibly empty: the
  URL of a response, the location of a frame, a capture of a pattern, or the \<^verbatim>\<open>url\<close>
  member of a JSON answer, which is taken to be a string.
\<close>

datatype attempt = Throws | Returns string

type_synonym expansion_method = "string \<Rightarrow> attempt"

record expanders =
  expandViaFetch :: expansion_method
  expandViaIframe :: expansion_method
  expandViaProxy :: expansion_method
  expandViaCorsSite :: expansion_method

datatype expand_error = AllExpansionMethodsFailed

text \<open>The loop of expandUrl over the methods; a method that throws is skipped.\<close>

fun try_methods :: "expansion_method list \<Rightarrow> string \<Rightarrow> expand_error + string" where
  "try_methods [] shortUrl = Inl AllExpansionMethodsFailed"
| "try_methods (method # methods) shortUrl =
     (case method shortUrl of
        Throws \<Rightarrow> try_methods methods shortUrl
      | Returns expanded \<Rightarrow>
          if expanded \<noteq> [] \<and> expanded \<noteq> shortUrl \<and> isValidExpandedUrl expanded
          then Inr expanded
          else try_methods methods shortUrl)"

definition methods_of :: "expanders \<Rightarrow> expansion_method list" where
  "methods_of ex = [expandViaFetch ex, expandViaIframe ex, expandViaProxy ex, expandViaCorsSite ex]"

definition expandUrl :: "expanders \<Rightarrow> string \<Rightarrow> expand_error + string" where
  "expandUrl ex shortUrl = try_methods (methods_of ex) shortUrl"

text \<open>The test of an expanded URL, said with substrings instead of the matcher.\<close>

definition google_maps_host :: "string \<Rightarrow> bool" where
  "google_maps_host url \<longleftrightarrow>
     (\<exists>pre post. url = pre @ ''maps.google.'' @ post) \<or>
     (\<exists>pre mid post. url = pre @ ''www.google.'' @ mid @ ''/maps'' @ post \<and> mid \<noteq> [] \<and>
        \<not> list_ex is_line_terminator mid) \<or>
     (\<exists>pre post. url = pre @ ''maps.app.goo.gl'' @ post)"

definition has_location_part :: "string \<Rightarrow> bool" where
  "has_location_part url \<longleftrightarrow>
     (\<exists>pre post. url = pre @ ''@'' @ post) \<or>
     (\<exists>pre post. url = pre @ ''q='' @ post) \<or>
     (\<exists>pre post. url = pre @ ''dir/'' @ post)"

definition succeeds :: "string \<Rightarrow> expansion_method \<Rightarrow> bool" where
  "succeeds shortUrl method =
     (case method shortUrl of
        Throws \<Rightarrow> False
      | Returns url \<Rightarrow> url \<noteq> [] \<and> url \<noteq> shortUrl \<and> isValidExpandedUrl url)"

subsection \<open>A short link and what the methods answer\<close>

definition short0 :: string where
  "short0 = ''https://maps.app.goo.gl/xyz123''"

definition expanders0 :: expanders where
  "expanders0 =
     \<lparr>expandViaFetch = (\<lambda>u. Returns []),
      expandViaIframe = (\<lambda>u. Throws),
      expandViaProxy = (\<lambda>u. Returns ''https://www.google.com/maps/@40.7128,-74.0060,15z''),
      expandViaCorsSite = (\<lambda>u. Returns ''https://maps.google.com/maps?q=Central+Park'')\<rparr>"

definition expanders1 :: expanders where
  "expanders1 =
     \<lparr>expandViaFetch = (\<lambda>u. Returns u),
      expandViaIframe = (\<lambda>u. Throws),
      expandViaProxy = (\<lambda>u. Returns ''https://example.org/@1,2''),
      expandViaCorsSite = (\<lambda>u. Throws)\<rparr>"

section \<open>Archive store and extractor, after the specification\<close>

text \<open>
  The server side of the extractor (the Flask application and the extraction tool) is
  not among the sources. What follows is written from the specification, sections 3
  and 4.
\<close>

datatype entry_status = Uploaded | Queued | Processing | Ready | Failed

datatype upload_action = Skipped | Created | Replaced

record day_date =
  year :: nat
  month :: nat
  day :: nat

record archive_entry =
  unique_id :: string
  original_filename :: string
  clean_name :: string
  build_date :: day_date
  status :: entry_status
  output_directory :: "string option"
  description :: string
  created_at :: nat
  updated_at :: nat

record upload =
  upload_filename :: string
  declared_build :: "day_date option"
  received :: day_date

record upsert_result =
  archive_after :: "archive_entry list"
  action :: upload_action
  result_id :: string
  job_required :: bool

text \<open>
  Modelled from the spec: the order of build dates at day granularity (section 4.2
  compares them with \<^verbatim>\<open><=\<close> and \<^verbatim>\<open>>\<close>); the Archive Store is not among the sources.
\<close>

definition date_le :: "day_date \<Rightarrow> day_date \<Rightarrow> bool" where
  "date_le a b \<longleftrightarrow>
     year a < year b \<or>
     (year a = year b \<and> (month a < month b \<or> (month a = month b \<and> day a \<le> day b)))"

text \<open>
  Modelled from the spec: the formatted build date \<^verbatim>\<open>YYYYMMDD\<close> of section 4.2; the
  Archive Store is not among the sources.
\<close>

definition pad :: "nat \<Rightarrow> nat \<Rightarrow> string" where
  "pad w n = replicate (w - length (show_nat n)) CHR ''0'' @ show_nat n"

definition format_date :: "day_date \<Rightarrow> string" where
  "format_date d = pad 4 (year d) @ pad 2 (month d) @ pad 2 (day d)"

text \<open>
  Modelled from the spec: \<^verbatim>\<open>build_date\<close> is the document's declared build timestamp if
  present, else the upload's receipt time, at day granularity (section 4.2); the
  Archive Store is not among the sources.
\<close>

definition build_date_of :: "upload \<Rightarrow> day_date" where
  "build_date_of u = (case declared_build u of Some d \<Rightarrow> d | None \<Rightarrow> received u)"

text \<open>
  Modelled from the spec: \<^verbatim>\<open>identify\<close>, the \<^verbatim>\<open>unique_id\<close> as \<^verbatim>\<open>clean_name\<close> joined to
  the formatted \<^verbatim>\<open>build_date\<close> (\<^verbatim>\<open>name_YYYYMMDD\<close>, section 4.2). \<open>clean\<close> stands for
  sanitize after stem, which the specification does not spell out; the Archive Store is
  not among the sources.
\<close>

definition identify :: "(string \<Rightarrow> string) \<Rightarrow> upload \<Rightarrow> string" where
  "identify clean u = clean (upload_filename u) @ ''_'' @ format_date (build_date_of u)"

text \<open>
  Modelled from the spec: \<^verbatim>\<open>upsert\<close> with the dedup decision of section 4.2; the
  Archive Store is not among the sources. With no entry of the same \<^verbatim>\<open>clean_name\<close> a
  new entry is created in Queued. With one, an incoming build date that is not later
  is Skipped: nothing is changed and the caller is pointed at the existing entry. A
  later build date is Replaced: the entry is updated in place, reset to Queued, its
  output directory superseded, and a new job is required.
\<close>

definition upsert :: "(string \<Rightarrow> string) \<Rightarrow> nat \<Rightarrow> upload \<Rightarrow> archive_entry list \<Rightarrow> upsert_result" where
  "upsert clean now u archive =
     (let name = clean (upload_filename u); date = build_date_of u; uid = identify clean u in
      case find (\<lambda>e. clean_name e = name) archive of
        None \<Rightarrow>
          \<lparr>archive_after =
             archive @
             [\<lparr>unique_id = uid, original_filename = upload_filename u, clean_name = name,
               build_date = date, status = Queued, output_directory = None,
               description = [], created_at = now, updated_at = now\<rparr>],
           action = Created, result_id = uid, job_required = True\<rparr>
      | Some existing \<Rightarrow>
          if date_le date (build_date existing)
          then \<lparr>archive_after = archive, action = Skipped, result_id = unique_id existing,
                job_required = False\<rparr>
          else
            \<lparr>archive_after =
               map (\<lambda>e. if clean_name e = name
                        then e\<lparr>unique_id := uid, original_filename := upload_filename u,
                               build_date := date, status := Queued,
                               output_directory := None, updated_at := now\<rparr>
                        else e) archive,
             action = Replaced, result_id = uid, job_required = True\<rparr>)"

subsection \<open>The example of section 8\<close>

definition clean0 :: "string \<Rightarrow> string" where
  "clean0 f = takeWhile (\<lambda>c. c \<noteq> CHR ''.'') f"

definition upload0 :: upload where
  "upload0 =
     \<lparr>upload_filename = ''morningtrip.gpx'',
      declared_build = Some \<lparr>year = 2026, month = 1, day = 2\<rparr>,
      received = \<lparr>year = 2026, month = 11, day = 2\<rparr>\<rparr>"

definition upload1 :: upload where
  "upload1 = upload0\<lparr>received := \<lparr>year = 2026, month = 11, day = 3\<rparr>\<rparr>"

subsection \<open>Extractor\<close>

record point =
  latitude :: real
  longitude :: real
  elevation :: "real option"
  timestamp :: "string option"

record marker =
  marker_name :: "string option"
  marker_at :: point

record path =
  path_name :: "string option"
  path_points :: "point list"

record geo_document =
  namespace_uri :: "string option"
  build_timestamp :: "string option"
  doc_description :: "string option"
  markers :: "marker list"
  tracks :: "path list"
  routes :: "path list"

datatype content_type = MarkersFile | TrackFile | RouteFile

record out_document =
  out_filename :: string
  out_type :: content_type
  out_namespace :: "string option"
  out_generated :: string
  out_description :: string
  out_markers :: "marker list"
  out_paths :: "path list"

record summary_line =
  line_file :: string
  line_type :: content_type
  line_points :: nat

record summary =
  summary_lines :: "summary_line list"
  total_markers :: nat
  total_tracks :: nat
  total_routes :: nat
  total_points :: nat
  no_components :: bool

record extraction =
  markers_file :: "out_document option"
  track_files :: "out_document list"
  route_files :: "out_document list"
  summary_text :: summary

record extract_config =
  sanitize :: "string \<Rightarrow> string"
  ext :: string
  source_filename :: string
  source_clean_name :: string
  generated_at :: string

datatype extract_error = ParseError

text \<open>
  Modelled from the spec: the number of points of a track or route, of an output
  document and of an input document, as the round-trip property of section 8 counts
  them; the Extractor is not among the sources.
\<close>

definition path_size :: "path \<Rightarrow> nat" where
  "path_size p = length (path_points p)"

definition document_points :: "out_document \<Rightarrow> nat" where
  "document_points d = length (out_markers d) + sum_list (map path_size (out_paths d))"

definition input_points :: "geo_document \<Rightarrow> nat" where
  "input_points doc =
     length (markers doc) + sum_list (map path_size (tracks doc)) +
     sum_list (map path_size (routes doc))"

text \<open>
  Modelled from the spec: the file name of a track or route output (section 4.1), the
  sanitized declared name or the positional fallback \<^verbatim>\<open>track_<index>\<close>, and the file
  names of section 6. The sanitizing function and the extension are parameters; the
  index counts from 1, which the specification leaves open. The Extractor is not among
  the sources.
\<close>

definition path_filename :: "extract_config \<Rightarrow> string \<Rightarrow> nat \<times> path \<Rightarrow> string" where
  "path_filename cfg kind ip =
     (case path_name (snd ip) of
        Some n \<Rightarrow> sanitize cfg n
      | None \<Rightarrow> kind @ ''_'' @ show_nat (fst ip)) @ ext cfg"

definition numbered :: "'a list \<Rightarrow> (nat \<times> 'a) list" where
  "numbered xs = zip [1 ..< Suc (length xs)] xs"

text \<open>
  Modelled from the spec: every output document carries the namespace of the input and
  a metadata block with a fresh generation timestamp and a description that names the
  source file (section 4.1); the Extractor is not among the sources.
\<close>

definition output_document ::
  "extract_config \<Rightarrow> geo_document \<Rightarrow> string \<Rightarrow> content_type \<Rightarrow> marker list \<Rightarrow> path list
     \<Rightarrow> out_document" where
  "output_document cfg doc name type ms ps =
     \<lparr>out_filename = name, out_type = type, out_namespace = namespace_uri doc,
      out_generated = generated_at cfg,
      out_description = ''Extracted from '' @ source_filename cfg,
      out_markers = ms, out_paths = ps\<rparr>"

text \<open>
  Modelled from the spec: the summary of section 4.1, one line for every output file
  with its content type and point count, and the totals; the Extractor is not among the
  sources.
\<close>

definition summarize :: "geo_document \<Rightarrow> out_document list \<Rightarrow> summary" where
  "summarize doc outs =
     \<lparr>summary_lines =
        map (\<lambda>d. \<lparr>line_file = out_filename d, line_type = out_type d,
                   line_points = document_points d\<rparr>) outs,
      total_markers = length (markers doc),
      total_tracks = length (tracks doc),
      total_routes = length (routes doc),
      total_points = sum_list (map document_points outs),
      no_components = (outs = [])\<rparr>"

text \<open>
  Modelled from the spec: the extraction of section 4.1. All markers go into one
  markers document, which is left out when there are none; every track and every route
  goes into a document of its own, tracks and routes numbered independently. The
  Extractor is not among the sources.
\<close>

definition extract_parts :: "extract_config \<Rightarrow> geo_document \<Rightarrow> extraction" where
  "extract_parts cfg doc =
     (let mf = (if markers doc = [] then None
                else Some (output_document cfg doc
                             (source_clean_name cfg @ ''_markers'' @ ext cfg)
                             MarkersFile (markers doc) []));
          tfs = map (\<lambda>ip. output_document cfg doc (path_filename cfg ''track'' ip)
                            TrackFile [] [snd ip]) (numbered (tracks doc));
          rfs = map (\<lambda>ip. output_document cfg doc (path_filename cfg ''route'' ip)
                            RouteFile [] [snd ip]) (numbered (routes doc))
      in \<lparr>markers_file = mf, track_files = tfs, route_files = rfs,
          summary_text = summarize doc (case_option [] (\<lambda>d. [d]) mf @ tfs @ rfs)\<rparr>)"

text \<open>
  Modelled from the spec: the contract of the Extractor (section 4.1): malformed markup
  (no parsed document, \<open>None\<close>) is a ParseError and nothing is written; every
  well-formed document is extracted. The Extractor is not among the sources.
\<close>

definition extractor :: "extract_config \<Rightarrow> geo_document option \<Rightarrow> extract_error + extraction" where
  "extractor cfg parsed =
     (case parsed of None \<Rightarrow> Inl ParseError | Some doc \<Rightarrow> Inr (extract_parts cfg doc))"

text \<open>
  Modelled from the spec: the points of an extraction, the marker points of the
  markers output plus the points of all track and route outputs (section 8); the
  Extractor is not among the sources.
\<close>

definition output_points :: "extraction \<Rightarrow> nat" where
  "output_points e =
     (case markers_file e of None \<Rightarrow> 0 | Some d \<Rightarrow> document_points d) +
     sum_list (map document_points (track_files e)) +
     sum_list (map document_points (route_files e))"

subsection \<open>The document of section 8, with a shorter track\<close>

definition config0 :: extract_config where
  "config0 =
     \<lparr>sanitize = map (\<lambda>c. if c = CHR '' '' then CHR ''_'' else c), ext = ''.gpx'',
      source_filename = ''morningtrip.gpx'', source_clean_name = ''morningtrip'',
      generated_at = ''2026-11-02T00:00:00Z''\<rparr>"

definition point0 :: point where
  "point0 = \<lparr>latitude = 48, longitude = 11, elevation = None, timestamp = None\<rparr>"

definition document0 :: geo_document where
  "document0 =
     \<lparr>namespace_uri = Some ''http://www.topografix.com/GPX/1/1'',
      build_timestamp = Some ''2026-01-02T00:00:00Z'', doc_description = None,
      markers = [\<lparr>marker_name = Some ''Start'', marker_at = point0\<rparr>,
                 \<lparr>marker_name = Some ''End'', marker_at = point0\<rparr>],
      tracks = [\<lparr>path_name = Some ''Morning Ride'', path_points = [point0, point0, point0]\<rparr>],
      routes = [\<lparr>path_name = None, path_points = [point0]\<rparr>]\<rparr>"

section \<open>Theorems\<close>

lemma js_get_None_iff: "js_get data k = None \<longleftrightarrow> data = JNull \<or> data = JUndef"
  by (cases data) (auto split: option.splits)

lemma js_get_same_None: "js_get data k = None \<Longrightarrow> js_get data k' = None"
  by (simp add: js_get_None_iff)

lemma js_field_get: "js_get data k = Some v \<Longrightarrow> js_field data k' = the (js_get data k')"
  by (cases data) (auto simp: js_field_def split: option.splits)

lemma js_field_null: "js_get data k = None \<Longrightarrow> js_field data k' = JUndef"
  using js_get_same_None [of data k k'] by (simp add: js_field_def)

lemma locations_catch [simp]: "locations (processFile_catch m) = []"
  by (simp add: processFile_catch_def)

lemma error_toasts_catch [simp]: "length (error_toasts (processFile_catch m)) = 1"
  by (simp add: processFile_catch_def)

text \<open>
  C1. Every Select/Process response handled by processFile has exactly one of three
  outcomes. With a redirect flag and a url, the browser is sent to that url, the
  processing page is not opened and no error is shown. Otherwise, with a job id, the
  browser is sent to the processing page of that job and no error is shown. Otherwise
  the location is left alone and one error toast is shown. A request that fails
  altogether ends in the error toast as well.
\<close>

theorem processFile_outcome:
  "(case r of
      Rejected m \<Rightarrow>
        locations (processFile p uid r) = [] \<and> length (error_toasts (processFile p uid r)) = 1
    | Body data \<Rightarrow>
        if has_redirect data then
          locations (processFile p uid r) = [js_string (js_field data ''url'')] \<and>
          error_toasts (processFile p uid r) = []
        else if has_job data then
          locations (processFile p uid r) = [''/processing/'' @ js_string (js_field data ''job_id'')] \<and>
          error_toasts (processFile p uid r) = []
        else
          locations (processFile p uid r) = [] \<and> length (error_toasts (processFile p uid r)) = 1)"
proof (cases r)
  case (Rejected m)
  then show ?thesis by (simp add: processFile_def)
next
  case (Body data)
  show ?thesis
  proof (cases "js_get data ''redirect''")
    case None
    then have "\<not> has_redirect data" "\<not> has_job data"
      by (simp_all add: has_redirect_def has_job_def js_field_null)
    with None Body show ?thesis
      by (simp add: processFile_def processFile_then_def)
  next
    case (Some v)
    then have f: "\<And>k. js_field data k = the (js_get data k)"
      by (rule js_field_get)
    have v: "js_field data ''redirect'' = v"
      using Some by (simp add: js_field_def)
    show ?thesis
      using Body Some v
      by (simp add: processFile_def processFile_then_def has_redirect_def has_job_def f [symmetric])
  qed
qed

subsection \<open>Deletion\<close>

text \<open>
  C3. A delete request has been sent (a token was entered and an entry is selected).
  When the response does not report success, whether the server refused the token, the
  body is null or the request failed, the list of entries and its empty-state block are
  exactly as before and an error toast is shown. The list changes only when the
  response reports success; and when it does and the browser resolves the selector of
  the entry to the elements with that \<^verbatim>\<open>data-unique-id\<close>, the first such element is
  removed from the list and no error is shown.
\<close>

theorem confirmDelete_response:
  assumes sent: "token_entered st \<noteq> []" "truthy (currentDeleteId st)"
  shows "(\<not> reports_success r \<longrightarrow>
            displayed (fst (confirmDelete eng p st r)) = displayed st \<and>
            error_toasts (snd (confirmDelete eng p st r)) \<noteq> [])
       \<and> (file_items (fst (confirmDelete eng p st r)) \<noteq> file_items st \<longrightarrow> reports_success r)
       \<and> (reports_success r \<and>
            eng (item_selector (currentDeleteId st)) =
              Some (has_unique_id (js_string (currentDeleteId st))) \<longrightarrow>
            error_toasts (snd (confirmDelete eng p st r)) = [] \<and>
            file_items (fst (confirmDelete eng p st r)) =
              (case find_index_of (has_unique_id (js_string (currentDeleteId st))) (file_items st) of
                 None \<Rightarrow> file_items st
               | Some i \<Rightarrow> remove_at i (file_items st)))"
proof -
  have tok: "(case deleteToken st of Some v \<Rightarrow> trim v | None \<Rightarrow> []) \<noteq> []"
    using sent(1) by (simp add: token_entered_def)
  show ?thesis
  proof (cases r)
    case (Rejected m)
    then show ?thesis using tok sent(2)
      by (simp add: confirmDelete_def confirmDelete_catch_def reports_success_def Let_def
          displayed_def hideDeleteDialog_def)
  next
    case (Body data)
    show ?thesis
    proof (cases "js_get data ''success''")
      case None
      then have "js_field data ''success'' = JUndef" by (simp add: js_field_def)
      then show ?thesis using Body None tok sent(2)
        by (simp add: confirmDelete_def confirmDelete_catch_def confirmDelete_then_def
            reports_success_def Let_def displayed_def hideDeleteDialog_def)
    next
      case (Some v)
      then have f: "js_field data ''success'' = v" by (simp add: js_field_def)
      show ?thesis
      proof (cases "truthy v")
        case False
        then show ?thesis using Body Some f tok sent(2)
          by (simp add: confirmDelete_def confirmDelete_then_def reports_success_def Let_def
              displayed_def hideDeleteDialog_def)
      next
        case True
        then show ?thesis using Body Some f tok sent(2)
          by (auto simp: confirmDelete_def confirmDelete_then_def confirmDelete_catch_def
              reports_success_def Let_def hideDeleteDialog_def split: option.splits)
      qed
    qed
  qed
qed

theorem confirmDelete_response_witness:
  "displayed (fst (confirmDelete engine0 ''/extract-gpx-parts/'' page0 refused)) = displayed page0
   \<and> error_toasts (snd (confirmDelete engine0 ''/extract-gpx-parts/'' page0 refused)) \<noteq> []
   \<and> file_items (fst (confirmDelete engine0 ''/extract-gpx-parts/'' page0 deleted))
       = [\<lparr>data_unique_id = Some ''T_20251224''\<rparr>]"
proof -
  have a: "token_entered page0 \<noteq> []"
    by (simp add: token_entered_def page0_def trim_def is_js_space_def)
  have b: "truthy (currentDeleteId page0)"
    by (simp add: page0_def)
  have c: "\<not> reports_success refused"
    by (simp add: reports_success_def js_field_def refused_def)
  have d: "reports_success deleted"
    by (simp add: reports_success_def js_field_def deleted_def)
  have e: "engine0 (item_selector (currentDeleteId page0)) =
             Some (has_unique_id (js_string (currentDeleteId page0)))"
    by (simp add: engine0_def item_selector_def page0_def)
  have f: "find_index_of (has_unique_id (js_string (currentDeleteId page0))) (file_items page0)
             = Some 1"
    by (simp add: page0_def has_unique_id_def)
  have g: "remove_at 1 (file_items page0) = [\<lparr>data_unique_id = Some ''T_20251224''\<rparr>]"
    by (simp add: page0_def remove_at_def)
  from confirmDelete_response [OF a b, of refused engine0 "''/extract-gpx-parts/''"]
       confirmDelete_response [OF a b, of deleted engine0 "''/extract-gpx-parts/''"]
       c d e f g
  show ?thesis by simp
qed

text \<open>
  C9. confirmDelete posts a delete request only with a token that is not empty after
  trimming and with an entry selected, and the request carries both. With an empty
  token, or with no entry selected, nothing is posted, the page is as it was, and
  the only effect is one toast (a warning for the token, an error for the entry).
\<close>

theorem confirmDelete_guard:
  "posts (snd (confirmDelete eng p st r)) =
     (if token_entered st \<noteq> [] \<and> truthy (currentDeleteId st)
      then [(deleteFile_url p,
             JObj [(''unique_id'', currentDeleteId st), (''token'', JStr (token_entered st))])]
      else [])
   \<and> (token_entered st = [] \<longrightarrow>
        confirmDelete eng p st r = (st, [Toast ''Please enter the delete token'' ''warning'']))
   \<and> (token_entered st \<noteq> [] \<and> \<not> truthy (currentDeleteId st) \<longrightarrow>
        confirmDelete eng p st r = (st, [Toast ''No file selected for deletion'' ''error'']))"
proof -
  have t: "(case deleteToken st of Some v \<Rightarrow> trim v | None \<Rightarrow> []) = token_entered st"
    by (simp add: token_entered_def)
  have p: "posts (snd (confirmDelete eng p st r)) =
     (if token_entered st \<noteq> [] \<and> truthy (currentDeleteId st)
      then [(deleteFile_url p,
             JObj [(''unique_id'', currentDeleteId st), (''token'', JStr (token_entered st))])]
      else [])"
    by (cases r)
       (auto simp: confirmDelete_def confirmDelete_then_def confirmDelete_catch_def t Let_def
             split: option.splits)
  show ?thesis using p by (simp add: confirmDelete_def t Let_def)
qed

theorem confirmDelete_guard_witness:
  "token_entered page1 = [] \<and>
   confirmDelete engine0 ''/'' page1 deleted =
     (page1, [Toast ''Please enter the delete token'' ''warning'']) \<and>
   posts (snd (confirmDelete engine0 ''/'' page1 deleted)) = []"
proof -
  have a: "token_entered page1 = []"
    by (simp add: token_entered_def page1_def page0_def trim_def is_js_space_def)
  from confirmDelete_guard [of engine0 "''/''" page1 deleted] a
  show ?thesis by simp
qed

subsection \<open>Selection on the results page\<close>

lemma distinct_set_add: "distinct s \<Longrightarrow> distinct (set_add x s)"
  by (simp add: set_add_def)

lemma distinct_fold_set_add: "distinct s \<Longrightarrow> distinct (fold (\<lambda>c. set_add (f c)) cs s)"
  by (induction cs arbitrary: s) (simp_all add: distinct_set_add)

lemma distinct_set_delete: "distinct s \<Longrightarrow> distinct (set_delete x s)"
  by (simp add: set_delete_def distinct_removeAll)

lemma inv_update:
  "distinct (selectedFiles st) \<Longrightarrow> selection_inv (updateSelectAllCheckbox (updateSelectedCount st))"
  by (auto simp: selection_inv_def count_shown_def button_agrees_def updateSelectAllCheckbox_def
      updateSelectedCount_def Let_def set_size_def split: option.splits)

lemma inv_initial: "selection_inv (page_load page)"
  by (auto simp: selection_inv_def count_shown_def button_agrees_def page_load_def
      initializeResults_def updateSelectedCount_def Let_def set_size_def split: option.splits)

lemma inv_selectAll: "selection_inv st \<Longrightarrow> selection_inv (selectAll st)"
  unfolding selectAll_def
  by (rule inv_update) (simp add: selection_inv_def distinct_fold_set_add)

lemma inv_selectNone: "selection_inv (selectNone st)"
  unfolding selectNone_def by (rule inv_update) simp

lemma selectedFiles_selectNone: "selectedFiles (selectNone st) = []"
  by (simp add: selectNone_def updateSelectAllCheckbox_def updateSelectedCount_def Let_def)

lemma inv_selectByType: "selection_inv (fst (selectByType eng type st))"
proof (cases "eng (type_selector type)")
  case None
  then show ?thesis by (simp add: selectByType_def Let_def inv_selectNone)
next
  case (Some m)
  then show ?thesis
    by (simp add: selectByType_def Let_def inv_update distinct_fold_set_add selectedFiles_selectNone)
qed

lemma inv_toggle: "selection_inv st \<Longrightarrow> selection_inv (toggleSelectAll st)"
  by (auto simp: toggleSelectAll_def inv_selectAll inv_selectNone split: option.splits)

lemma inv_click: "selection_inv st \<Longrightarrow> selection_inv (click_select_all st)"
  unfolding click_select_all_def
  by (rule inv_toggle)
     (auto simp: selection_inv_def count_shown_def button_agrees_def split: option.splits)

lemma inv_change: "selection_inv st \<Longrightarrow> selection_inv (checkbox_change i st)"
  unfolding checkbox_change_def
  by (auto simp: Let_def selection_inv_def distinct_set_add distinct_set_delete
      intro!: inv_update [unfolded selection_inv_def] split: option.splits)

lemma inv_step: "selection_inv st \<Longrightarrow> selection_inv (selection_step eng op st)"
  by (cases op) (simp_all add: inv_selectAll inv_selectNone inv_selectByType inv_toggle inv_click inv_change)

lemma inv_run: "selection_inv st \<Longrightarrow> selection_inv (selection_run eng ops st)"
  unfolding selection_run_def
  by (induction ops arbitrary: st) (simp_all add: inv_step)

lemma posts_download_failed [simp]: "posts (download_failed m) = []"
  by (simp add: download_failed_def)

lemma posts_downloadSelected:
  "posts (downloadSelected today st resp) =
     (if selectedFiles st = [] then []
      else [(''/download-selected'',
             JObj [(''files'', JArr (map (\<lambda>f. case f of None \<Rightarrow> JNull | Some n \<Rightarrow> JStr n) (selectedFiles st))),
                   (''directory'', JStr (outputDirectory st))])])"
  by (auto simp: downloadSelected_def Let_def split: download_response.splits fetched.splits option.splits)

text \<open>
  C10. After the page has loaded and any sequence of selection operations has run
  (selectAll, selectNone, selectByType, toggleSelectAll called directly or by a click,
  changes of single checkboxes), the counter shows the size of the selectedFiles set
  and the Download Selected button is disabled exactly when the set is empty, wherever
  the page has these elements; the set holds no member twice. downloadSelected on an
  empty selection only shows a warning and posts nothing; otherwise it posts one
  request with the selected names.
\<close>

theorem selection_display:
  "count_shown (selection_run eng ops (page_load page))
   \<and> button_agrees (selection_run eng ops (page_load page))
   \<and> distinct (selectedFiles (selection_run eng ops (page_load page)))
   \<and> (if selectedFiles (selection_run eng ops (page_load page)) = []
      then downloadSelected today (selection_run eng ops (page_load page)) resp =
             [Toast ''No files selected'' ''warning'']
      else posts (downloadSelected today (selection_run eng ops (page_load page)) resp) =
             [(''/download-selected'',
               JObj [(''files'',
                      JArr (map (\<lambda>f. case f of None \<Rightarrow> JNull | Some n \<Rightarrow> JStr n)
                             (selectedFiles (selection_run eng ops (page_load page))))),
                     (''directory'',
                      JStr (outputDirectory (selection_run eng ops (page_load page))))])])"
proof -
  have inv: "selection_inv (selection_run eng ops (page_load page))"
    by (rule inv_run [OF inv_initial])
  have none: "selectedFiles (selection_run eng ops (page_load page)) = [] \<Longrightarrow>
      downloadSelected today (selection_run eng ops (page_load page)) resp =
        [Toast ''No files selected'' ''warning'']"
    by (simp add: downloadSelected_def)
  show ?thesis
    using inv none posts_downloadSelected [of today "selection_run eng ops (page_load page)" resp]
    by (simp add: selection_inv_def)
qed

theorem selection_display_witness:
  "selectedCount (selection_run engine1 [SelectByType ''track'', CheckboxChange 0, CheckboxChange 1]
      (page_load results0)) = Some ''2''
   \<and> map_option fst (downloadSelectedBtn (selection_run engine1
        [SelectByType ''track'', CheckboxChange 0, CheckboxChange 1] (page_load results0))) = Some False
   \<and> downloadSelected ''2026-11-02'' (selection_run engine1 [SelectAll, SelectNone] (page_load results0))
        DownloadOk = [Toast ''No files selected'' ''warning'']"
proof -
  have a: "selectedFiles (selection_run engine1 [SelectByType ''track'', CheckboxChange 0, CheckboxChange 1]
      (page_load results0)) = [Some ''TET_S-02.gpx'', Some ''S_waypoints.gpx'']"
    by code_simp
  have b: "selectedCount (selection_run engine1 [SelectByType ''track'', CheckboxChange 0, CheckboxChange 1]
      (page_load results0)) \<noteq> None"
    by code_simp
  have c: "downloadSelectedBtn (selection_run engine1 [SelectByType ''track'', CheckboxChange 0, CheckboxChange 1]
      (page_load results0)) \<noteq> None"
    by code_simp
  have d: "selectedFiles (selection_run engine1 [SelectAll, SelectNone] (page_load results0)) = []"
    by code_simp
  have e: "show_nat (Suc (Suc 0)) = ''2''" by code_simp
  from selection_display [of engine1 "[SelectByType ''track'', CheckboxChange 0, CheckboxChange 1]" results0 "''2026-11-02''" DownloadOk]
       selection_display [of engine1 "[SelectAll, SelectNone]" results0 "''2026-11-02''" DownloadOk]
       a b c d e
  show ?thesis
    by (auto simp: count_shown_def button_agrees_def set_size_def split: option.splits)
qed

subsection \<open>Upload form\<close>

lemma endsWith_suffix: "endsWith s e \<longleftrightarrow> suffix e s"
proof
  assume "endsWith s e"
  then have "s = take (length s - length e) s @ e"
    by (metis append_take_drop_id endsWith_def)
  then show "suffix e s" by (metis suffixI)
next
  assume "suffix e s"
  then obtain z where "s = z @ e" by (auto simp: suffix_def)
  then show "endsWith s e" by (simp add: endsWith_def)
qed

lemma validate_files0:
  "files0 st = Some file \<Longrightarrow>
   files0 (fst (validate_file file st)) =
     (if has_gpx_extension file \<and> within_size file then Some file else None)"
  by (simp add: validate_file_def has_gpx_extension_def within_size_def max_upload_bytes_def
      resetFileInput_def)

lemma validate_toast:
  "snd (validate_file file st) =
     [if \<not> has_gpx_extension file then Toast ''Please select a GPX file'' ''error''
      else if \<not> within_size file then Toast ''File is too large. Maximum size is 100MB'' ''error''
      else Toast ''GPX file ready for processing'' ''success'']"
  by (simp add: validate_file_def has_gpx_extension_def within_size_def max_upload_bytes_def)

lemma unguarded_eq:
  "all_present st \<Longrightarrow> choose_file_unguarded fmt file st = Inr (choose_file fmt file st)"
  by (auto simp: all_present_def choose_file_unguarded_def choose_file_def
      file_change_unguarded_def file_change_def Let_def)

text \<open>
  C2. A file picked in the upload form is kept in the input exactly when its
  lower-cased name ends with \<^verbatim>\<open>.gpx\<close> and its size is at most 100 * 1024 * 1024 bytes.
  Otherwise the input is reset and one error toast is shown, and a submit of the form
  is then prevented, so nothing is uploaded. The extension is checked first: a file
  that fails both checks gets the message about the extension. The older script does
  the same on a page that has the four display elements it writes to.
\<close>

theorem file_validation:
  "files0 (fst (choose_file fmt file st)) =
     (if has_gpx_extension file \<and> within_size file then Some file else None)
   \<and> snd (choose_file fmt file st) =
       [if \<not> has_gpx_extension file then Toast ''Please select a GPX file'' ''error''
        else if \<not> within_size file then Toast ''File is too large. Maximum size is 100MB'' ''error''
        else Toast ''GPX file ready for processing'' ''success'']
   \<and> fst (form_submit (fst (choose_file fmt file st))) =
       (\<not> (has_gpx_extension file \<and> within_size file))
   \<and> (all_present st \<longrightarrow> choose_file_unguarded fmt file st = Inr (choose_file fmt file st))"
proof -
  let ?st = "st\<lparr>files0 := Some file,
      fileName := map_option (\<lambda>_. file_name file) (fileName st),
      fileSize := map_option (\<lambda>_. fmt (file_size file)) (fileSize st),
      fileLabel := map_option (\<lambda>_. ''none'') (fileLabel st),
      fileInfo := map_option (\<lambda>_. ''flex'') (fileInfo st)\<rparr>"
  have c: "choose_file fmt file st = validate_file file ?st"
    by (simp add: choose_file_def file_change_def)
  have f: "files0 ?st = Some file" by simp
  show ?thesis
    unfolding c
    using validate_files0 [OF f] validate_toast [of "file" "?st"] unguarded_eq [of st fmt "file"]
    by (simp add: form_submit_def c)
qed

theorem file_validation_witness:
  "all_present form0
   \<and> choose_file_unguarded fmt0 notes_txt form0 = Inr (choose_file fmt0 notes_txt form0)
   \<and> files0 (fst (choose_file fmt0 notes_txt form0)) = None
   \<and> snd (choose_file fmt0 notes_txt form0) = [Toast ''Please select a GPX file'' ''error'']
   \<and> fst (form_submit (fst (choose_file fmt0 notes_txt form0)))
   \<and> files0 (fst (choose_file fmt0 huge_gpx form0)) = None
   \<and> snd (choose_file fmt0 huge_gpx form0) = [Toast ''File is too large. Maximum size is 100MB'' ''error'']
   \<and> files0 (fst (choose_file fmt0 tour_gpx form0)) = Some tour_gpx"
proof -
  have a: "all_present form0" by (simp add: all_present_def form0_def)
  have e1: "\<not> has_gpx_extension notes_txt"
    by (simp add: has_gpx_extension_def notes_txt_def endsWith_def toLowerCase_def toLowerCase_char_def)
  have e2: "has_gpx_extension huge_gpx"
    by (simp add: has_gpx_extension_def huge_gpx_def endsWith_def toLowerCase_def toLowerCase_char_def)
  have e3: "has_gpx_extension tour_gpx"
    by (simp add: has_gpx_extension_def tour_gpx_def endsWith_def toLowerCase_def toLowerCase_char_def)
  have s2: "\<not> within_size huge_gpx" by (simp add: within_size_def huge_gpx_def)
  have s3: "within_size tour_gpx" by (simp add: within_size_def tour_gpx_def)
  from file_validation [of fmt0 notes_txt form0] file_validation [of fmt0 huge_gpx form0]
    file_validation [of fmt0 tour_gpx form0] a e1 e2 e3 s2 s3
  show ?thesis by simp
qed

text \<open>
  On a page without the \<^verbatim>\<open>.file-name\<close> element the older listener stops before the
  validation, and the file stays in the input whatever its name and size.
\<close>

lemma unguarded_missing:
  "fileName st = None \<Longrightarrow> choose_file_unguarded fmt file st = Inl (st\<lparr>files0 := Some file\<rparr>)"
  by (simp add: choose_file_unguarded_def file_change_unguarded_def)

subsection \<open>Simulated progress\<close>

lemma tick_bounds:
  assumes r: "rounding fl" and p: "fl p = p" "p \<le> 90" and d: "0 \<le> r"
  shows "p \<le> tick fl p r \<and> tick fl p r \<le> 90 \<and> fl (tick fl p r) = tick fl p r"
proof -
  have m: "\<And>x y. x \<le> y \<Longrightarrow> fl x \<le> fl y" and z: "fl 0 = 0" and n: "fl 90 = 90"
    and i: "\<And>x. fl (fl x) = fl x"
    using r by (auto simp: rounding_def mono_def fun_eq_iff)
  have "0 \<le> r * 15" using d by simp
  then have "0 \<le> fl (r * 15)" using m [of 0 "r * 15"] z by simp
  then have "fl p \<le> fl (p + fl (r * 15))" by (intro m) simp
  then have "p \<le> fl (p + fl (r * 15))" using p by simp
  then show ?thesis using p n i by (simp add: tick_def Let_def)
qed

lemma simulate_ticks_sorted:
  assumes r: "rounding fl"
  shows "random_draws rs \<Longrightarrow> fl p = p \<Longrightarrow> p \<le> 90 \<Longrightarrow>
     sorted (p # map fst (simulate_ticks fl p rs)) \<and>
     list_all (\<lambda>q. p \<le> q \<and> q \<le> 90) (map fst (simulate_ticks fl p rs))"
proof (induction rs arbitrary: p)
  case Nil
  then show ?case by simp
next
  case (Cons a rs)
  let ?q = "tick fl p a"
  have a: "0 \<le> a" and rs: "random_draws rs"
    using Cons.prems(1) by (simp_all add: random_draws_def)
  have q: "p \<le> ?q" "?q \<le> 90" "fl ?q = ?q"
    using tick_bounds [OF r Cons.prems(2,3) a] by simp_all
  have ih: "sorted (?q # map fst (simulate_ticks fl ?q rs)) \<and>
     list_all (\<lambda>x. ?q \<le> x \<and> x \<le> 90) (map fst (simulate_ticks fl ?q rs))"
    by (rule Cons.IH [OF rs q(3) q(2)])
  then have "list_all (\<lambda>x. p \<le> x \<and> x \<le> 90) (map fst (simulate_ticks fl ?q rs))"
    using q(1) by (auto simp: list_all_iff)
  then show ?case using ih q
    by (auto simp: Let_def list_all_iff)
qed

lemma simulate_ticks_text:
  "list_all (\<lambda>(q, t). t = progress_text q) (simulate_ticks fl p rs)"
  by (induction rs arbitrary: p) (simp_all add: Let_def)

text \<open>
  C5. The percentages that one run of the progress display shows, tick after tick,
  never decrease and stay between 0 and 100 (in fact at most 90), for every sequence
  of random draws from [0, 1) and every rounding of the arithmetic.
\<close>

theorem progress_monotone:
  assumes "rounding fl" and "random_draws rs"
  shows "sorted (map fst (simulateProgress has_fill has_text fl rs))
     \<and> list_all (\<lambda>p. 0 \<le> p \<and> p \<le> 100) (map fst (simulateProgress has_fill has_text fl rs))"
proof -
  have z: "fl 0 = 0" using assms(1) by (simp add: rounding_def)
  have s: "sorted (0 # map fst (simulate_ticks fl 0 rs)) \<and>
     list_all (\<lambda>q. 0 \<le> q \<and> q \<le> 90) (map fst (simulate_ticks fl 0 rs))"
    by (rule simulate_ticks_sorted [OF assms(1) assms(2) z]) simp
  then have "list_all (\<lambda>q. 0 \<le> q \<and> q \<le> 100) (map fst (simulate_ticks fl 0 rs))"
    by (auto simp: list_all_iff)
  then show ?thesis using s by (simp add: simulateProgress_def)
qed

theorem progress_monotone_witness:
  "rounding exact \<and> random_draws [4/5, 9/10, 99/100]
   \<and> map fst (simulateProgress True True exact [4/5, 9/10, 99/100]) = [12, 51/2, 807/20]
   \<and> sorted (map fst (simulateProgress True True exact [4/5, 9/10, 99/100]))"
proof -
  have a: "rounding exact"
    by (auto simp: rounding_def exact_def mono_def)
  have b: "random_draws [4/5, 9/10, 99/100]"
    by (simp add: random_draws_def)
  have c: "map fst (simulateProgress True True exact [4/5, 9/10, 99/100]) = [12, 51/2, 807/20]"
    by (simp add: simulateProgress_def tick_def exact_def Let_def)
  from progress_monotone [OF a b, of True True] a b c show ?thesis by simp
qed

text \<open>
  C4, with the ranges of the progress bar. Every percentage shown lies between 0 and
  90, and the text beside
  it is \<^verbatim>\<open>Uploading file...\<close> exactly below 30, \<^verbatim>\<open>Analyzing GPX structure...\<close> exactly
  from 30 to below 60, \<^verbatim>\<open>Extracting components...\<close> exactly from 60 to below 90, and
  \<^verbatim>\<open>Almost done...\<close> exactly at 90.
\<close>

theorem progress_text_ranges:
  assumes "rounding fl" and "random_draws rs"
  shows "list_all
     (\<lambda>(p, t). 0 \<le> p \<and> p \<le> 90
        \<and> (t = ''Uploading file...'' \<longleftrightarrow> p < 30)
        \<and> (t = ''Analyzing GPX structure...'' \<longleftrightarrow> 30 \<le> p \<and> p < 60)
        \<and> (t = ''Extracting components...'' \<longleftrightarrow> 60 \<le> p \<and> p < 90)
        \<and> (t = ''Almost done...'' \<longleftrightarrow> p = 90))
     (simulateProgress has_fill has_text fl rs)"
proof -
  have z: "fl 0 = 0" using assms(1) by (simp add: rounding_def)
  have b: "list_all (\<lambda>q. 0 \<le> q \<and> q \<le> 90) (map fst (simulate_ticks fl 0 rs))"
    using simulate_ticks_sorted [OF assms(1) assms(2) z] by simp
  have t: "list_all (\<lambda>(q, t). t = progress_text q) (simulate_ticks fl 0 rs)"
    by (rule simulate_ticks_text)
  have "list_all
     (\<lambda>(p, t). 0 \<le> p \<and> p \<le> 90
        \<and> (t = ''Uploading file...'' \<longleftrightarrow> p < 30)
        \<and> (t = ''Analyzing GPX structure...'' \<longleftrightarrow> 30 \<le> p \<and> p < 60)
        \<and> (t = ''Extracting components...'' \<longleftrightarrow> 60 \<le> p \<and> p < 90)
        \<and> (t = ''Almost done...'' \<longleftrightarrow> p = 90))
     (simulate_ticks fl 0 rs)"
    unfolding list_all_iff
  proof
    fix x assume x: "x \<in> set (simulate_ticks fl 0 rs)"
    obtain p t where pt: "x = (p, t)" by (cases x)
    have "t = progress_text p" using t x pt by (auto simp: list_all_iff)
    moreover have "0 \<le> p \<and> p \<le> 90" using b x pt by (force simp: list_all_iff)
    ultimately show "case x of (p, t) \<Rightarrow> 0 \<le> p \<and> p \<le> 90
        \<and> (t = ''Uploading file...'' \<longleftrightarrow> p < 30)
        \<and> (t = ''Analyzing GPX structure...'' \<longleftrightarrow> 30 \<le> p \<and> p < 60)
        \<and> (t = ''Extracting components...'' \<longleftrightarrow> 60 \<le> p \<and> p < 90)
        \<and> (t = ''Almost done...'' \<longleftrightarrow> p = 90)"
      by (simp add: pt progress_text_def)
  qed
  then show ?thesis by (simp add: simulateProgress_def)
qed

theorem progress_text_ranges_witness:
  "rounding exact \<and> random_draws [4/5, 9/10, 99/100]
   \<and> simulateProgress True True exact [4/5, 9/10, 99/100] =
       [(12, ''Uploading file...''), (51/2, ''Uploading file...''),
        (807/20, ''Analyzing GPX structure...'')]"
proof -
  have a: "rounding exact"
    by (auto simp: rounding_def exact_def mono_def)
  have b: "random_draws [4/5, 9/10, 99/100]"
    by (simp add: random_draws_def)
  have c: "simulateProgress True True exact [4/5, 9/10, 99/100] =
       [(12, ''Uploading file...''), (51/2, ''Uploading file...''),
        (807/20, ''Analyzing GPX structure...'')]"
    by (simp add: simulateProgress_def tick_def exact_def Let_def progress_text_def)
  from progress_text_ranges [OF a b, of True True] a b c show ?thesis by simp
qed

text \<open>
  C4, as stated, fails: at 12 percent, inside the range 10 to 40 that the
  specification gives to parsing, the bar still shows the text of the first phase.
\<close>

theorem progress_phase_counterexample:
  "simulateProgress True True exact [4/5] = [(12, ''Uploading file...'')]
   \<and> phase_of_text ''Uploading file...'' = Some Uploading
   \<and> spec_phase 12 = Parsing
   \<and> phase_of_text (snd (hd (simulateProgress True True exact [4/5])))
       \<noteq> Some (spec_phase (fst (hd (simulateProgress True True exact [4/5]))))"
  by (simp add: simulateProgress_def tick_def exact_def Let_def progress_text_def
      phase_of_text_def spec_phase_def)

subsection \<open>Short URL expansion\<close>

lemma match_here_literal:
  "match_here (literal l @ p) s \<longleftrightarrow> (\<exists>t. s = l @ t \<and> match_here p t)"
proof (induction l arbitrary: s)
  case Nil
  then show ?case by (simp add: literal_def)
next
  case (Cons c l)
  then show ?case by (cases s) (auto simp: literal_def)
qed

lemma match_here_literal_end: "match_here (literal l) s \<longleftrightarrow> (\<exists>t. s = l @ t)"
  using match_here_literal [of l "[]" s] by simp

lemma match_here_dot_plus:
  "match_here (DotPlus # p) s \<longleftrightarrow>
     (\<exists>d t. s = d @ t \<and> d \<noteq> [] \<and> \<not> list_ex is_line_terminator d \<and> match_here p t)"
proof (induction s)
  case Nil
  then show ?case by simp
next
  case (Cons x xs)
  show ?case
  proof
    assume "match_here (DotPlus # p) (x # xs)"
    then have x: "\<not> is_line_terminator x"
      and m: "match_here (DotPlus # p) xs \<or> match_here p xs" by simp_all
    from m show "\<exists>d t. x # xs = d @ t \<and> d \<noteq> [] \<and> \<not> list_ex is_line_terminator d \<and> match_here p t"
    proof
      assume "match_here (DotPlus # p) xs"
      then obtain d t where "xs = d @ t" "\<not> list_ex is_line_terminator d" "match_here p t"
        using Cons.IH by blast
      then have "x # xs = (x # d) @ t \<and> x # d \<noteq> [] \<and> \<not> list_ex is_line_terminator (x # d) \<and> match_here p t"
        using x by simp
      then show ?thesis by blast
    next
      assume "match_here p xs"
      then have "x # xs = [x] @ xs \<and> [x] \<noteq> [] \<and> \<not> list_ex is_line_terminator [x] \<and> match_here p xs"
        using x by simp
      then show ?thesis by blast
    qed
  next
    assume "\<exists>d t. x # xs = d @ t \<and> d \<noteq> [] \<and> \<not> list_ex is_line_terminator d \<and> match_here p t"
    then obtain d t where d: "x # xs = d @ t" "d \<noteq> []" "\<not> list_ex is_line_terminator d" "match_here p t"
      by blast
    then obtain d' where d': "d = x # d'" by (cases d) auto
    show "match_here (DotPlus # p) (x # xs)"
    proof (cases "d' = []")
      case True
      then show ?thesis using d d' by simp
    next
      case False
      then have "match_here (DotPlus # p) xs"
        using Cons.IH d d' by auto
      then show ?thesis using d d' by simp
    qed
  qed
qed

lemma regex_test_iff: "regex_test p s \<longleftrightarrow> (\<exists>pre t. s = pre @ t \<and> match_here p t)"
proof (induction s)
  case Nil
  then show ?case by simp
next
  case (Cons x xs)
  show ?case
  proof
    assume "regex_test p (x # xs)"
    then have "match_here p (x # xs) \<or> regex_test p xs" by simp
    then show "\<exists>pre t. x # xs = pre @ t \<and> match_here p t"
    proof
      assume "match_here p (x # xs)"
      then have "x # xs = [] @ (x # xs) \<and> match_here p (x # xs)" by simp
      then show ?thesis by blast
    next
      assume "regex_test p xs"
      then obtain pre t where "xs = pre @ t" "match_here p t" using Cons.IH by blast
      then have "x # xs = (x # pre) @ t \<and> match_here p t" by simp
      then show ?thesis by blast
    qed
  next
    assume "\<exists>pre t. x # xs = pre @ t \<and> match_here p t"
    then obtain pre t where pt: "x # xs = pre @ t" "match_here p t" by blast
    show "regex_test p (x # xs)"
    proof (cases pre)
      case Nil
      then have "match_here p (x # xs)" using pt by simp
      then show ?thesis by simp
    next
      case (Cons y ys)
      then have "xs = ys @ t" using pt by simp
      then have "regex_test p xs" using Cons.IH pt(2) by blast
      then show ?thesis by simp
    qed
  qed
qed

lemma includes_iff: "js_includes s sub \<longleftrightarrow> (\<exists>pre post. s = pre @ sub @ post)"
proof (induction s)
  case Nil
  then show ?case by auto
next
  case (Cons x xs)
  show ?case
  proof
    assume "js_includes (x # xs) sub"
    then have "prefix sub (x # xs) \<or> js_includes xs sub" by simp
    then show "\<exists>pre post. x # xs = pre @ sub @ post"
    proof
      assume "prefix sub (x # xs)"
      then obtain post where "x # xs = [] @ sub @ post" by (auto simp: prefix_def)
      then show ?thesis by blast
    next
      assume "js_includes xs sub"
      then obtain pre post where "xs = pre @ sub @ post" using Cons.IH by blast
      then have "x # xs = (x # pre) @ sub @ post" by simp
      then show ?thesis by blast
    qed
  next
    assume "\<exists>pre post. x # xs = pre @ sub @ post"
    then obtain pre post where pp: "x # xs = pre @ sub @ post" by blast
    show "js_includes (x # xs) sub"
    proof (cases pre)
      case Nil
      then have "prefix sub (x # xs)" using pp by (simp add: prefix_def)
      then show ?thesis by simp
    next
      case (Cons y ys)
      then have "xs = ys @ sub @ post" using pp by simp
      then have "js_includes xs sub" using Cons.IH by blast
      then show ?thesis by simp
    qed
  qed
qed

lemma test_literal: "regex_test (literal l) s \<longleftrightarrow> (\<exists>pre post. s = pre @ l @ post)"
  by (simp add: regex_test_iff match_here_literal_end) blast

lemma test_www:
  "regex_test (literal ''www.google.'' @ [DotPlus] @ literal ''/maps'') s \<longleftrightarrow>
     (\<exists>pre mid post. s = pre @ ''www.google.'' @ mid @ ''/maps'' @ post \<and> mid \<noteq> [] \<and>
        \<not> list_ex is_line_terminator mid)"
  unfolding regex_test_iff match_here_literal
  by (simp only: append_Cons append_Nil match_here_dot_plus match_here_literal_end) blast

lemma list_ex_simps3:
  "list_ex P [a, b, c] \<longleftrightarrow> P a \<or> P b \<or> P c"
  by simp

lemma isValidExpandedUrl_iff:
  "isValidExpandedUrl url \<longleftrightarrow> google_maps_host url \<and> has_location_part url"
  unfolding isValidExpandedUrl_def googleMapsPatterns_def google_maps_host_def has_location_part_def
    includes_iff
  by (simp only: list_ex_simps3 test_literal test_www)


lemma try_methods_Inr:
  "try_methods ms s = Inr u \<Longrightarrow>
     u \<noteq> [] \<and> u \<noteq> s \<and> isValidExpandedUrl u \<and> list_ex (\<lambda>m. m s = Returns u) ms"
  by (induction ms) (auto split: attempt.splits if_splits)

lemma try_methods_Inl:
  "try_methods ms s = Inl e \<Longrightarrow> \<not> list_ex (succeeds s) ms"
  by (induction ms) (auto simp: succeeds_def split: attempt.splits if_splits)

text \<open>
  C8. When expandUrl returns a URL, that URL differs from the input, some method
  returned it, and it passes isValidExpandedUrl: it contains \<^verbatim>\<open>maps.google.\<close>, or
  \<^verbatim>\<open>www.google.\<close> followed on the same line by at least one character and then
  \<^verbatim>\<open>/maps\<close>, or \<^verbatim>\<open>maps.app.goo.gl\<close>, and it contains \<^verbatim>\<open>@\<close>, \<^verbatim>\<open>q=\<close> or \<^verbatim>\<open>dir/\<close>. When
  expandUrl throws, no method has returned such a URL; so whenever one does, expandUrl
  returns.
\<close>

theorem expandUrl_result:
  "(case expandUrl ex shortUrl of
      Inr url \<Rightarrow>
        url \<noteq> shortUrl \<and> isValidExpandedUrl url \<and>
        google_maps_host url \<and> has_location_part url \<and>
        list_ex (\<lambda>method. method shortUrl = Returns url) (methods_of ex)
    | Inl e \<Rightarrow>
        e = AllExpansionMethodsFailed \<and> \<not> list_ex (succeeds shortUrl) (methods_of ex))"
proof (cases "expandUrl ex shortUrl")
  case (Inl e)
  then have "\<not> list_ex (succeeds shortUrl) (methods_of ex)"
    unfolding expandUrl_def by (rule try_methods_Inl)
  moreover have "e = AllExpansionMethodsFailed" by (cases e)
  ultimately show ?thesis using Inl by simp
next
  case (Inr url)
  then have "url \<noteq> [] \<and> url \<noteq> shortUrl \<and> isValidExpandedUrl url \<and>
      list_ex (\<lambda>m. m shortUrl = Returns url) (methods_of ex)"
    unfolding expandUrl_def by (rule try_methods_Inr)
  then show ?thesis using Inr isValidExpandedUrl_iff [of url] by simp
qed

theorem expandUrl_result_witness:
  "expandUrl expanders0 short0 = Inr ''https://www.google.com/maps/@40.7128,-74.0060,15z''
   \<and> google_maps_host ''https://www.google.com/maps/@40.7128,-74.0060,15z''
   \<and> expandUrl expanders1 short0 = Inl AllExpansionMethodsFailed
   \<and> \<not> list_ex (succeeds short0) (methods_of expanders1)"
proof -
  have a: "expandUrl expanders0 short0 = Inr ''https://www.google.com/maps/@40.7128,-74.0060,15z''"
    by code_simp
  have b: "expandUrl expanders1 short0 = Inl AllExpansionMethodsFailed"
    by code_simp
  from expandUrl_result [where ex = expanders0 and shortUrl = short0]
       expandUrl_result [where ex = expanders1 and shortUrl = short0] a b
  show ?thesis by simp
qed

subsection \<open>Archive store\<close>

lemma date_le_refl: "date_le d d"
  by (simp add: date_le_def)

lemma find_append_new:
  "find P xs = None \<Longrightarrow> P y \<Longrightarrow> find P (xs @ [y]) = Some y"
  by (induction xs) (auto split: if_splits)

lemma find_map_replace:
  "find P xs = Some e \<Longrightarrow> P (f e) \<Longrightarrow>
   find P (map (\<lambda>x. if P x then f x else x) xs) = Some (f e)"
  by (induction xs) (auto split: if_splits)

text \<open>
  C6. Two uploads with the same \<^verbatim>\<open>clean_name\<close> and the same \<^verbatim>\<open>build_date\<close>, one after
  the other, into any archive: the second is Skipped, it returns the \<^verbatim>\<open>unique_id\<close> that
  the first returned, it leaves the archive as the first left it, and it requires no job.
\<close>

theorem upload_twice_skipped:
  assumes name: "clean (upload_filename u2) = clean (upload_filename u1)"
    and date: "build_date_of u2 = build_date_of u1"
  shows "action (upsert clean t2 u2 (archive_after (upsert clean t1 u1 archive))) = Skipped
     \<and> result_id (upsert clean t2 u2 (archive_after (upsert clean t1 u1 archive)))
         = result_id (upsert clean t1 u1 archive)
     \<and> archive_after (upsert clean t2 u2 (archive_after (upsert clean t1 u1 archive)))
         = archive_after (upsert clean t1 u1 archive)
     \<and> \<not> job_required (upsert clean t2 u2 (archive_after (upsert clean t1 u1 archive)))"
proof -
  let ?n = "clean (upload_filename u1)"
  let ?P = "\<lambda>e. clean_name e = ?n"
  let ?a1 = "archive_after (upsert clean t1 u1 archive)"
  have k: "\<exists>e. find ?P ?a1 = Some e \<and> date_le (build_date_of u1) (build_date e)
      \<and> unique_id e = result_id (upsert clean t1 u1 archive)"
  proof (cases "find ?P archive")
    case None
    then show ?thesis
      by (simp add: upsert_def Let_def find_append_new date_le_refl)
  next
    case (Some e)
    show ?thesis
    proof (cases "date_le (build_date_of u1) (build_date e)")
      case True
      then show ?thesis using Some by (simp add: upsert_def Let_def)
    next
      case False
      let ?f = "\<lambda>e. e\<lparr>unique_id := identify clean u1, original_filename := upload_filename u1,
                       build_date := build_date_of u1, status := Queued,
                       output_directory := None, updated_at := t1\<rparr>"
      have "find ?P (map (\<lambda>x. if ?P x then ?f x else x) archive) = Some (?f e)"
        by (rule find_map_replace [OF Some]) (use Some in \<open>auto simp: find_Some_iff\<close>)
      then show ?thesis using Some False
        by (simp add: upsert_def Let_def date_le_refl)
    qed
  qed
  then obtain e where e: "find ?P ?a1 = Some e" "date_le (build_date_of u1) (build_date e)"
    "unique_id e = result_id (upsert clean t1 u1 archive)" by blast
  show ?thesis
    using e name date by (simp add: upsert_def [of clean t2 u2] Let_def)
qed


theorem upload_twice_skipped_witness:
  "clean0 (upload_filename upload1) = clean0 (upload_filename upload0)
   \<and> build_date_of upload1 = build_date_of upload0
   \<and> action (upsert clean0 5 upload0 []) = Created
   \<and> result_id (upsert clean0 5 upload0 []) = ''morningtrip_20260102''
   \<and> action (upsert clean0 7 upload1 (archive_after (upsert clean0 5 upload0 []))) = Skipped
   \<and> result_id (upsert clean0 7 upload1 (archive_after (upsert clean0 5 upload0 [])))
       = ''morningtrip_20260102''"
proof -
  have a: "clean0 (upload_filename upload1) = clean0 (upload_filename upload0)"
    by (simp add: upload1_def)
  have b: "build_date_of upload1 = build_date_of upload0"
    by (simp add: upload1_def upload0_def build_date_of_def)
  have c: "action (upsert clean0 5 upload0 []) = Created"
    by (simp add: upsert_def Let_def)
  have d: "result_id (upsert clean0 5 upload0 []) = ''morningtrip_20260102''"
    by code_simp
  from upload_twice_skipped [OF a b, of 7 5 "[]"] a b c d show ?thesis by simp
qed

subsection \<open>Extractor\<close>

lemma map_snd_numbered: "map snd (numbered xs) = xs"
  unfolding numbered_def by (rule map_snd_zip) (simp del: upt_Suc)

lemma length_numbered: "length (numbered xs) = length xs"
  by (simp add: numbered_def del: upt_Suc)

lemma path_documents_points:
  "sum_list (map document_points
       (map (\<lambda>ip. output_document cfg doc (name ip) type [] [snd ip]) (numbered ps)))
     = sum_list (map path_size ps)"
proof -
  have "map document_points
          (map (\<lambda>ip. output_document cfg doc (name ip) type [] [snd ip]) (numbered ps))
        = map path_size (map snd (numbered ps))"
    by (simp add: document_points_def output_document_def comp_def)
  then show ?thesis by (simp only: map_snd_numbered)
qed

text \<open>
  C7. For every document the Extractor accepts, the marker points of the markers
  output plus the points of all track outputs and all route outputs are as many as the
  markers plus the track and route points of the input; the summary reports the same
  total, and there is one output for every track and every route. Only malformed
  markup is refused.
\<close>

theorem extraction_keeps_points:
  "(case extractor cfg (Some doc) of
      Inl e \<Rightarrow> False
    | Inr out \<Rightarrow>
        output_points out = input_points doc \<and>
        total_points (summary_text out) = input_points doc \<and>
        length (track_files out) = length (tracks doc) \<and>
        length (route_files out) = length (routes doc))
   \<and> extractor cfg None = Inl ParseError"
proof -
  have m: "(case (if markers doc = [] then None
                else Some (output_document cfg doc
                             (source_clean_name cfg @ ''_markers'' @ ext cfg)
                             MarkersFile (markers doc) [])) of
              None \<Rightarrow> 0 | Some d \<Rightarrow> document_points d) = length (markers doc)"
    by (simp add: document_points_def output_document_def)
  have m': "sum_list (map document_points (case_option [] (\<lambda>d. [d])
               (if markers doc = [] then None
                else Some (output_document cfg doc
                             (source_clean_name cfg @ ''_markers'' @ ext cfg)
                             MarkersFile (markers doc) [])))) = length (markers doc)"
    by (simp add: document_points_def output_document_def)
  show ?thesis
    using m m'
    by (simp add: extractor_def extract_parts_def Let_def output_points_def input_points_def
        summarize_def path_documents_points length_numbered del: map_map)
qed


theorem extraction_keeps_points_witness:
  "map_sum id output_points (extractor config0 (Some document0)) = Inr 6
   \<and> input_points document0 = 6
   \<and> map_sum id (\<lambda>out. map out_filename (track_files out @ route_files out))
        (extractor config0 (Some document0)) = Inr [''Morning_Ride.gpx'', ''route_1.gpx'']"
proof -
  have a: "input_points document0 = 6"
    by (simp add: input_points_def document0_def path_size_def)
  have b: "map_sum id (\<lambda>out. map out_filename (track_files out @ route_files out))
        (extractor config0 (Some document0)) = Inr [''Morning_Ride.gpx'', ''route_1.gpx'']"
    by code_simp
  from extraction_keeps_points [where cfg = config0 and doc = document0] a b show ?thesis
    by (auto split: sum.splits)
qed

end
